theory Spec2Isabelle
  imports Main
begin

section \<open>Data model\<close>

text \<open>
  The policy evaluation core of the admission controller: package \<open>securitypolicy\<close>
  (\<open>ValidateImageSecurityPolicy\<close> and its helpers) and package \<open>review\<close>
  (\<open>Reviewer.Review\<close>). Go strings are \<open>string\<close>, slices are lists (a nil slice is
  the empty list), and a Go result pair \<open>(value, err)\<close> is a pair whose second component
  is an \<open>error option\<close> (\<open>None\<close> is \<open>nil\<close>), because the evaluator returns violations
  and an error side by side.
\<close>

text \<open>\<open>metadata.Vulnerability\<close>\<close>

record Vulnerability =
  CVE :: string
  Severity :: string
  HasFixAvailable :: bool

text \<open>\<open>metadata.PGPAttestation\<close>\<close>

record PGPAttestation =
  KeyID :: string
  Signature :: string
  OccID :: string

text \<open>
  \<open>metadata.OccurenceV1\<close>, restricted to the fields the evaluator reads: the note name
  and the compact JWTs of \<open>occ.Attestation.Jwts\<close>. Occurrences are taken to be non-nil
  and to carry an attestation (the source dereferences both unconditionally).
\<close>

record OccurenceV1 =
  NoteName :: string
  Jwts :: "string list"

text \<open>
  \<open>v1beta1.ImageSecurityPolicy\<close>. The nesting \<open>isp.Spec\<close> and
  \<open>isp.Spec.PackageVulnerabilityRequirements\<close> is flattened.
\<close>

record ImageSecurityPolicy =
  Name :: string
  Namespace :: string
  ImageWhitelist :: "string list"
  MaximumSeverity :: string
  MaximumFixUnavailableSeverity :: string
  WhitelistCVEs :: "string list"
  BuiltProjectIDs :: "string list"
  RequireAttestationsBy :: "string list"
  AttestationAuthorityNames :: "string list"

text \<open>\<open>securitypolicy.AttestorPublicKey\<close> and \<open>securitypolicy.Attestor\<close>\<close>

record AttestorPublicKey =
  ID :: string
  AsciiArmor :: string

record Attestor =
  AttestorName :: string
  PublicKeys :: "AttestorPublicKey list"

text \<open>
  Errors. \<open>Err\<close> is an error produced by a collaborator (metadata backend, attestor
  fetcher, KMS, signature library); the other constructors are the errors the evaluator
  builds itself, with the arguments of their format strings.
\<close>

datatype error =
    Err string
  | InvalidMaxSeverityLevel string
  | InvalidSeverityLevel string
  | TokenIsNotValid
  | NoJwtFound
  | FailedToGetAnAttestor string error
  | AttestorNotFound string
  | FailedToInitializeAttestationSignature string error
  | FailedToCheckRequiredAttestation string string error

text \<open>\<open>policy.ViolationType\<close>\<close>

datatype ViolationType =
    UnqualifiedImageViolation
  | FixUnavailableViolation
  | SeverityViolation
  | ArkCISignatureViolation
  | BuildProjectIDViolation
  | RequiredAttestationViolation

text \<open>
  \<open>policy.Reason\<close> is a formatted string in the source; the model keeps the function or
  format that built it together with its arguments.
\<close>

datatype Reason =
    UnqualifiedImageReason string
  | FixUnavailableReason string Vulnerability ImageSecurityPolicy
  | SeverityReason string Vulnerability ImageSecurityPolicy
  | ArkCISignatureReason error
  | BuildProjectIDReason string "string list"
  | RequiredAttestationReason string string

text \<open>\<open>securitypolicy.Violation\<close>; the vulnerability is absent for the kinds that have none.\<close>

record Violation =
  vulnerability :: "Vulnerability option"
  vType :: ViolationType
  reason :: Reason

definition NewViolation :: "Vulnerability option \<Rightarrow> ViolationType \<Rightarrow> Reason \<Rightarrow> Violation" where
  "NewViolation v t r = \<lparr>vulnerability = v, vType = t, reason = r\<rparr>"

section \<open>Severity thresholds\<close>

text \<open>
  The sentinels of package \<open>constants\<close>. The evaluator itself writes the literal
  \<open>"ALLOW_ALL"\<close> as the default of \<open>maxNoFixSev\<close>.
\<close>

definition BlockAll :: string where
  "BlockAll = ''BLOCK_ALL''"

definition AllowAll :: string where
  "AllowAll = ''ALLOW_ALL''"

text \<open>
  \<open>vulnerability.Severity_value\<close> is a Go \<open>map[string]int32\<close>, read only through
  \<open>\<le>\<close>. The functions below take the table as a parameter \<open>sv\<close>.
\<close>

type_synonym severity_table = "string \<Rightarrow> int option"

text \<open>
  The severity lattice as the specification gives it: the levels from low to high are
  MINIMAL, LOW, MEDIUM, HIGH, CRITICAL. A string is a lattice level when it has a rank.
\<close>

definition spec_latticeRank :: "string \<Rightarrow> int option" where
  "spec_latticeRank s =
     (if s = ''MINIMAL'' then Some 1
      else if s = ''LOW'' then Some 2
      else if s = ''MEDIUM'' then Some 3
      else if s = ''HIGH'' then Some 4
      else if s = ''CRITICAL'' then Some 5
      else None)"

text \<open>
  The table of the program. \<open>vulnerability.Severity_value\<close> belongs to the generated
  package \<open>google.golang.org/genproto/.../containeranalysis/v1beta1/vulnerability\<close> that
  \<open>go.mod\<close> requires; it is not among the sources. It is the name table of the protobuf
  enum \<open>Severity\<close>: the five levels of the lattice with the ranks 1 to 5, and before them
  the enum's zero value \<open>SEVERITY_UNSPECIFIED\<close>, which is not a lattice level.
\<close>

definition Severity_value :: severity_table where
  "Severity_value s =
     (if s = ''SEVERITY_UNSPECIFIED'' then Some 0 else spec_latticeRank s)"

text \<open>\<open>severityWithinThreshold\<close>\<close>

definition severityWithinThreshold ::
    "severity_table \<Rightarrow> string \<Rightarrow> string \<Rightarrow> bool \<times> error option" where
  "severityWithinThreshold sv maxSeverity severity =
     (if maxSeverity = BlockAll then (False, None)
      else if maxSeverity = AllowAll then (True, None)
      else case sv maxSeverity of
        None \<Rightarrow> (False, Some (InvalidMaxSeverityLevel maxSeverity))
      | Some rmax \<Rightarrow>
         (case sv severity of
            None \<Rightarrow> (False, Some (InvalidSeverityLevel severity))
          | Some r \<Rightarrow> (r \<le> rmax, None)))"

section \<open>Collaborators of the evaluator\<close>

text \<open>
  \<open>metadata.Fetcher\<close>, the interface of the metadata backend, restricted to the three
  methods the evaluator calls. Each returns the Go pair \<open>(list, err)\<close>.
\<close>

record Fetcher =
  Vulnerabilities :: "string \<Rightarrow> Vulnerability list \<times> error option"
  OccurencesV1 :: "string \<Rightarrow> OccurenceV1 list \<times> error option"
  Attestations :: "string \<Rightarrow> PGPAttestation list \<times> error option"

text \<open>\<open>AttestorFetcher.GetAttestor\<close>: the pointer may be nil, with or without an error.\<close>

type_synonym AttestorFetcher = "string \<Rightarrow> Attestor option \<times> error option"

text \<open>
  \<open>jwt.Token\<close>, as far as the evaluator reads it: \<open>token.Valid\<close> and \<open>token.Claims\<close>,
  which is a \<open>jwt.MapClaims\<close> (holding a string under \<open>"gcp_project"\<close>, or not) or some
  other claims type.
\<close>

datatype Claims = MapClaims "string option" | OtherClaims

record Token =
  Valid :: bool
  TokenClaims :: Claims

text \<open>The value built by \<open>container.NewAtomicContainerSig\<close>: the signed payload.\<close>

type_synonym AtomicContainerSig = string

text \<open>
  The libraries and the process environment the two packages use but do not define:
  \<^item> \<open>SeverityTable\<close>: \<open>vulnerability.Severity_value\<close>;
  \<^item> \<open>FullyQualifiedImage\<close>: \<open>resolve.FullyQualifiedImage\<close>;
  \<^item> \<open>ARKCI_SIGNATURE_NOTE\<close>: \<open>os.Getenv("ARKCI_SIGNATURE_NOTE")\<close>;
  \<^item> \<open>KMSVerfiyKeyfunc\<close>: the error of \<open>gcpjwt.KMSVerfiyKeyfunc\<close>, if any;
  \<^item> \<open>jwt_Parse\<close>: \<open>jwt.Parse\<close> of a compact JWT with the key function of the source;
  \<^item> \<open>NewAtomicContainerSig\<close>, \<open>VerifyAttestationSignature\<close>: package \<open>container\<close>
    (the latter returns \<open>None\<close> when the signature verifies);
  \<^item> \<open>DecodeString\<close>: \<open>base64.StdEncoding.DecodeString\<close>;
  \<^item> \<open>PgpFingerprint\<close>: \<open>secrets.NewPgpKey("", "", publicData)\<close> followed by
    \<open>Fingerprint()\<close>;
  \<^item> \<open>RemoveGloballyWhitelistedImages\<close>: \<open>util.RemoveGloballyWhitelistedImages\<close>.
\<close>

record Env =
  SeverityTable :: severity_table
  FullyQualifiedImage :: "string \<Rightarrow> bool"
  ARKCI_SIGNATURE_NOTE :: string
  KMSVerfiyKeyfunc :: "error option"
  jwt_Parse :: "string \<Rightarrow> error + Token"
  NewAtomicContainerSig :: "string \<Rightarrow> error + AtomicContainerSig"
  VerifyAttestationSignature :: "AtomicContainerSig \<Rightarrow> string \<Rightarrow> string \<Rightarrow> error option"
  DecodeString :: "string \<Rightarrow> error + string"
  PgpFingerprint :: "string \<Rightarrow> error + string"
  RemoveGloballyWhitelistedImages :: "string list \<Rightarrow> string list"

text \<open>
  The calls the evaluator makes on its two fetchers, in the order it makes them. The
  evaluator returns this log next to its result.
\<close>

datatype Call =
    CallVulnerabilities string
  | CallOccurencesV1 string
  | CallAttestations string
  | CallGetAttestor string

section \<open>The policy evaluator\<close>

text \<open>\<open>imageInWhitelist\<close> and \<open>cveInWhitelist\<close>: a linear search for an equal string.\<close>

definition imageInWhitelist :: "ImageSecurityPolicy \<Rightarrow> string \<Rightarrow> bool" where
  "imageInWhitelist isp img = (img \<in> set (ImageWhitelist isp))"

definition cveInWhitelist :: "ImageSecurityPolicy \<Rightarrow> string \<Rightarrow> bool" where
  "cveInWhitelist isp cve = (cve \<in> set (WhitelistCVEs isp))"

text \<open>\<open>strings.HasPrefix\<close>\<close>

definition HasPrefix :: "string \<Rightarrow> string \<Rightarrow> bool" where
  "HasPrefix s p = (take (length p) s = p)"

text \<open>\<open>imageInGCR\<close>: the loop over the four registry hosts.\<close>

fun imageInGCR_loop :: "string list \<Rightarrow> string \<Rightarrow> string \<Rightarrow> bool" where
  "imageInGCR_loop [] projectID img = False"
| "imageInGCR_loop (p # ps) projectID img =
     (if HasPrefix img (p @ ''/'' @ projectID @ ''/'') then True
      else imageInGCR_loop ps projectID img)"

definition imageInGCR :: "string \<Rightarrow> string \<Rightarrow> bool" where
  "imageInGCR projectID img =
     imageInGCR_loop [''gcr.io'', ''asia.gcr.io'', ''eu.gcr.io'', ''us.gcr.io''] projectID img"

text \<open>
  The loop over \<open>vulnz\<close> of \<open>ValidateImageSecurityPolicy\<close>. An error of the threshold
  test returns the violations collected so far together with the error.
\<close>

fun vulnzLoop ::
    "severity_table \<Rightarrow> ImageSecurityPolicy \<Rightarrow> string \<Rightarrow> string \<Rightarrow> string \<Rightarrow>
     Violation list \<Rightarrow> Vulnerability list \<Rightarrow> Violation list \<times> error option" where
  "vulnzLoop sv isp img maxSev maxNoFixSev violations [] = (violations, None)"
| "vulnzLoop sv isp img maxSev maxNoFixSev violations (v # vs) =
     (if cveInWhitelist isp (CVE v) then
        vulnzLoop sv isp img maxSev maxNoFixSev violations vs
      else if \<not> HasFixAvailable v then
        (case severityWithinThreshold sv maxNoFixSev (Severity v) of
           (ok, Some err) \<Rightarrow> (violations, Some err)
         | (ok, None) \<Rightarrow>
             if ok then vulnzLoop sv isp img maxSev maxNoFixSev violations vs
             else vulnzLoop sv isp img maxSev maxNoFixSev
                    (violations @ [\<lparr>vulnerability = Some v, vType = FixUnavailableViolation,
                                    reason = FixUnavailableReason img v isp\<rparr>]) vs)
      else
        (case severityWithinThreshold sv maxSev (Severity v) of
           (ok, Some err) \<Rightarrow> (violations, Some err)
         | (ok, None) \<Rightarrow>
             if ok then vulnzLoop sv isp img maxSev maxNoFixSev violations vs
             else vulnzLoop sv isp img maxSev maxNoFixSev
                    (violations @ [\<lparr>vulnerability = Some v, vType = SeverityViolation,
                                    reason = SeverityReason img v isp\<rparr>]) vs))"

text \<open>
  \<open>verifyArkSignature\<close>: the loop over the JWTs returns in its first iteration, so only
  the first JWT of the occurrence is looked at.
\<close>

definition verifyArkSignature :: "Env \<Rightarrow> OccurenceV1 \<Rightarrow> error + Token" where
  "verifyArkSignature env occ =
     (case KMSVerfiyKeyfunc env of
        Some err \<Rightarrow> Inl err
      | None \<Rightarrow>
         (case Jwts occ of
            [] \<Rightarrow> Inl NoJwtFound
          | j # js \<Rightarrow>
             (case jwt_Parse env j of
                Inl err \<Rightarrow> Inl err
              | Inr token \<Rightarrow> if \<not> Valid token then Inl TokenIsNotValid else Inr token)))"

text \<open>
  The loop over \<open>occs\<close>: it threads the violations and \<open>signedProjectID\<close>. A map claim
  without a string under \<open>"gcp_project"\<close> assigns the empty string.
\<close>

fun occsLoop ::
    "Env \<Rightarrow> Violation list \<Rightarrow> string \<Rightarrow> OccurenceV1 list \<Rightarrow> Violation list \<times> string" where
  "occsLoop env violations signedProjectID [] = (violations, signedProjectID)"
| "occsLoop env violations signedProjectID (occ # occs) =
     (if NoteName occ = ARKCI_SIGNATURE_NOTE env then
        (case verifyArkSignature env occ of
           Inl err \<Rightarrow>
             occsLoop env
               (violations @ [NewViolation None ArkCISignatureViolation (ArkCISignatureReason err)])
               signedProjectID occs
         | Inr token \<Rightarrow>
             (case TokenClaims token of
                MapClaims p \<Rightarrow>
                  occsLoop env violations (case p of None \<Rightarrow> [] | Some s \<Rightarrow> s) occs
              | OtherClaims \<Rightarrow> occsLoop env violations signedProjectID occs))
      else occsLoop env violations signedProjectID occs)"

text \<open>The loop over \<open>isp.Spec.BuiltProjectIDs\<close> that computes \<open>hasBuildProjectID\<close>.\<close>

fun hasBuildProjectID :: "string \<Rightarrow> string \<Rightarrow> string list \<Rightarrow> bool" where
  "hasBuildProjectID signedProjectID img [] = False"
| "hasBuildProjectID signedProjectID img (projectID # ps) =
     (if projectID = signedProjectID \<or> imageInGCR projectID img then True
      else hasBuildProjectID signedProjectID img ps)"

text \<open>The block "Check image namespace against BuiltProjectIDs".\<close>

definition checkBuiltProjectIDs ::
    "ImageSecurityPolicy \<Rightarrow> string \<Rightarrow> string \<Rightarrow> Violation list \<Rightarrow> Violation list" where
  "checkBuiltProjectIDs isp img signedProjectID violations =
     (if length (BuiltProjectIDs isp) > 0 then
        (if \<not> hasBuildProjectID signedProjectID img (BuiltProjectIDs isp) then
           violations @ [NewViolation None BuildProjectIDViolation
                           (BuildProjectIDReason img (BuiltProjectIDs isp))]
         else violations)
      else violations)"

text \<open>
  \<open>hasRequiredAttestation\<close>: the inner loop over the attestor's public keys stops at the
  first key that has the attestation's id and verifies its signature; the outer loop
  visits every attestation.
\<close>

fun pubKeysLoop ::
    "Env \<Rightarrow> AtomicContainerSig \<Rightarrow> PGPAttestation \<Rightarrow> AttestorPublicKey list \<Rightarrow> bool" where
  "pubKeysLoop env sig attestation [] = False"
| "pubKeysLoop env sig attestation (pubKey # pubKeys) =
     (if ID pubKey = KeyID attestation
         \<and> VerifyAttestationSignature env sig (AsciiArmor pubKey) (Signature attestation) = None
      then True
      else pubKeysLoop env sig attestation pubKeys)"

fun attestationsLoop ::
    "Env \<Rightarrow> AtomicContainerSig \<Rightarrow> AttestorPublicKey list \<Rightarrow> bool \<Rightarrow> PGPAttestation list \<Rightarrow> bool" where
  "attestationsLoop env sig pubKeys verified [] = verified"
| "attestationsLoop env sig pubKeys verified (attestation # attestations) =
     attestationsLoop env sig pubKeys
       (if pubKeysLoop env sig attestation pubKeys then True else verified) attestations"

definition hasRequiredAttestation ::
    "Env \<Rightarrow> string \<Rightarrow> Attestor \<Rightarrow> PGPAttestation list \<Rightarrow> bool \<times> error option" where
  "hasRequiredAttestation env img attestor attestations =
     (case NewAtomicContainerSig env img of
        Inl err \<Rightarrow> (False, Some (FailedToInitializeAttestationSignature img err))
      | Inr sig \<Rightarrow> (attestationsLoop env sig (PublicKeys attestor) False attestations, None))"

text \<open>
  The loop over \<open>isp.Spec.RequireAttestationsBy\<close>. Each of its three error exits returns
  nil violations. The second component logs the \<open>GetAttestor\<close> calls.
\<close>

fun requiredLoop ::
    "Env \<Rightarrow> AttestorFetcher \<Rightarrow> string \<Rightarrow> PGPAttestation list \<Rightarrow> Violation list \<Rightarrow>
     string list \<Rightarrow> (Violation list \<times> error option) \<times> Call list" where
  "requiredLoop env attestorFetcher img attestations violations [] = ((violations, None), [])"
| "requiredLoop env attestorFetcher img attestations violations (required # rs) =
     (case attestorFetcher required of
        (a, Some err) \<Rightarrow>
          (([], Some (FailedToGetAnAttestor required err)), [CallGetAttestor required])
      | (None, None) \<Rightarrow> (([], Some (AttestorNotFound required)), [CallGetAttestor required])
      | (Some requiredAttestor, None) \<Rightarrow>
          (case hasRequiredAttestation env img requiredAttestor attestations of
             (ok, Some err) \<Rightarrow>
               (([], Some (FailedToCheckRequiredAttestation img required err)),
                [CallGetAttestor required])
           | (ok, None) \<Rightarrow>
               (let (r, calls) =
                      requiredLoop env attestorFetcher img attestations
                        (if \<not> ok then
                           violations @ [NewViolation None RequiredAttestationViolation
                                           (RequiredAttestationReason img required)]
                         else violations) rs
                in (r, CallGetAttestor required # calls))))"

text \<open>
  The two thresholds of \<open>ValidateImageSecurityPolicy\<close>: the policy's fields, with the
  defaults the source assigns when a field is the empty string.
\<close>

definition maxSev :: "ImageSecurityPolicy \<Rightarrow> string" where
  "maxSev isp = (if MaximumSeverity isp = [] then ''CRITICAL'' else MaximumSeverity isp)"

definition maxNoFixSev :: "ImageSecurityPolicy \<Rightarrow> string" where
  "maxNoFixSev isp =
     (if MaximumFixUnavailableSeverity isp = [] then ''ALLOW_ALL''
      else MaximumFixUnavailableSeverity isp)"

text \<open>
  \<open>ValidateImageSecurityPolicy\<close>. The result is the Go pair \<open>(violations, err)\<close> and the
  log of fetcher calls. The error of \<open>OccurencesV1\<close> is bound and never read.
\<close>

definition ValidateImageSecurityPolicy ::
    "Env \<Rightarrow> ImageSecurityPolicy \<Rightarrow> string \<Rightarrow> Fetcher \<Rightarrow> AttestorFetcher \<Rightarrow>
     (Violation list \<times> error option) \<times> Call list" where
  "ValidateImageSecurityPolicy env isp img metadataFetcher attestorFetcher =
     (if imageInWhitelist isp img then (([], None), [])
      else if \<not> FullyQualifiedImage env img then
        (([\<lparr>vulnerability = None, vType = UnqualifiedImageViolation,
            reason = UnqualifiedImageReason img\<rparr>], None), [])
      else
        (case Vulnerabilities metadataFetcher img of
           (vulnz, Some err) \<Rightarrow> (([], Some err), [CallVulnerabilities img])
         | (vulnz, None) \<Rightarrow>
            (case vulnzLoop (SeverityTable env) isp img (maxSev isp) (maxNoFixSev isp) []
                    vulnz of
               (violations, Some err) \<Rightarrow> ((violations, Some err), [CallVulnerabilities img])
             | (violations, None) \<Rightarrow>
                (let (occs, err) = OccurencesV1 metadataFetcher img;
                     (violations1, signedProjectID) = occsLoop env violations [] occs;
                     violations2 = checkBuiltProjectIDs isp img signedProjectID violations1
                 in if length (RequireAttestationsBy isp) > 0 then
                      (case Attestations metadataFetcher img of
                         (attestations, Some err) \<Rightarrow>
                           (([], Some err),
                            [CallVulnerabilities img, CallOccurencesV1 img,
                             CallAttestations img])
                       | (attestations, None) \<Rightarrow>
                           (let (r, calls) =
                                  requiredLoop env attestorFetcher img attestations
                                    violations2 (RequireAttestationsBy isp)
                            in (r, [CallVulnerabilities img, CallOccurencesV1 img,
                                    CallAttestations img] @ calls)))
                    else ((violations2, None),
                          [CallVulnerabilities img, CallOccurencesV1 img])))))"

section \<open>The reviewer\<close>

text \<open>\<open>v1beta1.AttestationAuthority\<close>, with \<open>auth.Spec\<close> flattened.\<close>

record AttestationAuthority =
  AuthName :: string
  NoteReference :: string
  PrivateKeySecretName :: string
  PublicKeyData :: string

text \<open>
  The errors \<open>Review\<close> returns: an error of a collaborator passed on as it is, or one of
  the wrappers and messages the package builds.
\<close>

datatype ReviewError =
    Upstream error
  | FailedToGetAttestationAuthorities error
  | FailedValidatingImageSecurityPolicy error
  | FoundViolations string "Violation list"
  | FailedToHandleViolation error string "Violation list"
  | NoAttestationAuthoritiesConfigured string
  | ErrorsAddingAttestations "error list"

text \<open>
  The calls \<open>Review\<close> makes on its collaborators, in order. \<open>EvValidate\<close> is a call of
  the configured \<open>Validate\<close> function, that is, of the policy evaluator.
\<close>

datatype Event =
    EvAuths string string
  | EvAttestations string
  | EvHandleAttestation string bool
  | EvValidate ImageSecurityPolicy string
  | EvHandleViolation string "Violation list"
  | EvGetOrCreateAttestationNote AttestationAuthority
  | EvSecret string string
  | EvCreateAttestationOccurence "string option" string "string option"

text \<open>
  \<open>review.Config\<close> together with the metadata client of the \<open>Reviewer\<close>. The state of
  the world outside the process (the backend's occurrences and notes, the pod) has type
  \<open>'w\<close>: a collaborator that only reads takes it, one that may write returns the new one.
  \<^item> \<open>Validate\<close>: the configured \<open>ValidateFunc\<close>, applied to the client and to
    \<open>config.Attestors\<close>;
  \<^item> \<open>ClientAttestations\<close>: \<open>r.client.Attestations\<close>;
  \<^item> \<open>HandleAttestation\<close>, \<open>HandleViolation\<close>: \<open>config.Strategy\<close>;
  \<^item> \<open>GetOrCreateAttestationNote\<close>: \<open>util.GetOrCreateAttestationNote(r.client, _)\<close>;
  \<^item> \<open>CreateAttestationOccurence\<close>: \<open>r.client.CreateAttestationOccurence\<close>.
  Notes and signing secrets are pointers in the source and may be nil.
\<close>

record 'w Config =
  Validate :: "'w \<Rightarrow> ImageSecurityPolicy \<Rightarrow> string \<Rightarrow> Violation list \<times> error option"
  Secret :: "string \<Rightarrow> string \<Rightarrow> string option \<times> error option"
  Auths :: "string \<Rightarrow> string \<Rightarrow> error + AttestationAuthority"
  ClusterWhitelistedImagesRemover :: "string list \<Rightarrow> string list \<times> error option"
  IsWebhook :: bool
  ClientAttestations :: "'w \<Rightarrow> string \<Rightarrow> PGPAttestation list \<times> error option"
  HandleAttestation :: "'w \<Rightarrow> string \<Rightarrow> bool \<Rightarrow> error option \<times> 'w"
  HandleViolation :: "'w \<Rightarrow> string \<Rightarrow> Violation list \<Rightarrow> error option \<times> 'w"
  GetOrCreateAttestationNote :: "'w \<Rightarrow> AttestationAuthority \<Rightarrow> (string option \<times> error option) \<times> 'w"
  CreateAttestationOccurence ::
    "'w \<Rightarrow> string option \<Rightarrow> string \<Rightarrow> string option \<Rightarrow> error option \<times> 'w"

text \<open>\<open>fingerprint\<close>: the decoded key and its fingerprint, or the first error.\<close>

definition fingerprint :: "Env \<Rightarrow> string \<Rightarrow> error + (string \<times> string)" where
  "fingerprint env publicKeyData =
     (case DecodeString env publicKeyData of
        Inl err \<Rightarrow> Inl err
      | Inr publicData \<Rightarrow>
         (case PgpFingerprint env publicData of
            Inl err \<Rightarrow> Inl err
          | Inr fp \<Rightarrow> Inr (publicData, fp)))"

text \<open>Reading a Go \<open>map[string]string\<close>: a missing key reads as the empty string.\<close>

definition mapGet :: "(string \<rightharpoonup> string) \<Rightarrow> string \<Rightarrow> string" where
  "mapGet m k = (case m k of None \<Rightarrow> [] | Some v \<Rightarrow> v)"

text \<open>\<open>getAttestationAuthoritiesForISP\<close>: the loop stops at the first name that fails.\<close>

fun getAuthsLoop ::
    "'w Config \<Rightarrow> string \<Rightarrow> string list \<Rightarrow> (error + AttestationAuthority list) \<times> Event list" where
  "getAuthsLoop cfg ns [] = (Inr [], [])"
| "getAuthsLoop cfg ns (aName # names) =
     (case Auths cfg ns aName of
        Inl err \<Rightarrow> (Inl err, [EvAuths ns aName])
      | Inr a \<Rightarrow>
         (case getAuthsLoop cfg ns names of
            (Inl err, evs) \<Rightarrow> (Inl err, EvAuths ns aName # evs)
          | (Inr auths, evs) \<Rightarrow> (Inr (a # auths), EvAuths ns aName # evs)))"

definition getAttestationAuthoritiesForISP ::
    "'w Config \<Rightarrow> ImageSecurityPolicy \<Rightarrow> (error + AttestationAuthority list) \<times> Event list" where
  "getAttestationAuthoritiesForISP cfg isp =
     getAuthsLoop cfg (Namespace isp) (AttestationAuthorityNames isp)"

text \<open>
  \<open>hasValidImageAttestations\<close>. The first loop fills the map \<open>keys\<close> from fingerprint to
  key (a later authority with the same fingerprint overwrites an earlier one); the second
  verifies each attestation against \<open>keys[a.KeyID]\<close> and returns at the first success.
\<close>

fun keysLoop :: "Env \<Rightarrow> (string \<rightharpoonup> string) \<Rightarrow> AttestationAuthority list \<Rightarrow> (string \<rightharpoonup> string)" where
  "keysLoop env keys [] = keys"
| "keysLoop env keys (auth # auths) =
     (case fingerprint env (PublicKeyData auth) of
        Inl err \<Rightarrow> keysLoop env keys auths
      | Inr (key, fp) \<Rightarrow> keysLoop env (keys(fp \<mapsto> key)) auths)"

fun verifyLoop ::
    "Env \<Rightarrow> AtomicContainerSig \<Rightarrow> (string \<rightharpoonup> string) \<Rightarrow> PGPAttestation list \<Rightarrow> bool" where
  "verifyLoop env host keys [] = False"
| "verifyLoop env host keys (a # as) =
     (if VerifyAttestationSignature env host (mapGet keys (KeyID a)) (Signature a) = None
      then True
      else verifyLoop env host keys as)"

definition hasValidImageAttestations ::
    "Env \<Rightarrow> string \<Rightarrow> PGPAttestation list \<Rightarrow> AttestationAuthority list \<Rightarrow> bool" where
  "hasValidImageAttestations env img attestations auths =
     (case NewAtomicContainerSig env img of
        Inl err \<Rightarrow> False
      | Inr host \<Rightarrow> verifyLoop env host (keysLoop env Map.empty auths) attestations)"

text \<open>
  \<open>fetchAndVerifyAttestations\<close>: a failed fetch counts as not attested; an error of the
  strategy is logged only.
\<close>

definition fetchAndVerifyAttestations ::
    "'w Config \<Rightarrow> Env \<Rightarrow> string \<Rightarrow> AttestationAuthority list \<Rightarrow> 'w \<Rightarrow>
     (bool \<times> PGPAttestation list) \<times> Event list \<times> 'w" where
  "fetchAndVerifyAttestations cfg env img auths w =
     (case ClientAttestations cfg w img of
        (attestations, Some err) \<Rightarrow> ((False, attestations), [EvAttestations img], w)
      | (attestations, None) \<Rightarrow>
         (let isAttested = hasValidImageAttestations env img attestations auths;
              (err, w') = HandleAttestation cfg w img isAttested
          in ((isAttested, attestations),
              [EvAttestations img, EvHandleAttestation img isAttested], w')))"

text \<open>\<open>handleViolations\<close>: it always returns an error.\<close>

definition handleViolations ::
    "'w Config \<Rightarrow> string \<Rightarrow> Violation list \<Rightarrow> 'w \<Rightarrow> ReviewError \<times> Event list \<times> 'w" where
  "handleViolations cfg img violations w =
     (case HandleViolation cfg w img violations of
        (Some err, w') \<Rightarrow>
          (FailedToHandleViolation err img violations, [EvHandleViolation img violations], w')
      | (None, w') \<Rightarrow> (FoundViolations img violations, [EvHandleViolation img violations], w'))"

text \<open>
  \<open>addAttestations\<close> and \<open>getUnAttested\<close>. The map \<open>keys\<close> goes from authority name to
  fingerprint. For each authority that has not attested the image, the three calls are
  made whatever the earlier ones returned, and their errors are collected.
\<close>

fun namesLoop :: "Env \<Rightarrow> (string \<rightharpoonup> string) \<Rightarrow> AttestationAuthority list \<Rightarrow> (string \<rightharpoonup> string)" where
  "namesLoop env keys [] = keys"
| "namesLoop env keys (auth # auths) =
     (case fingerprint env (PublicKeyData auth) of
        Inl err \<Rightarrow> namesLoop env keys auths
      | Inr (key, fp) \<Rightarrow> namesLoop env (keys(AuthName auth \<mapsto> fp)) auths)"

definition getUnAttested ::
    "AttestationAuthority list \<Rightarrow> (string \<rightharpoonup> string) \<Rightarrow> PGPAttestation list \<Rightarrow>
     AttestationAuthority list" where
  "getUnAttested auths keys atts =
     filter (\<lambda>a. mapGet keys (AuthName a) \<notin> set (map KeyID atts)) auths"

fun issueLoop ::
    "'w Config \<Rightarrow> ImageSecurityPolicy \<Rightarrow> string \<Rightarrow> AttestationAuthority list \<Rightarrow> 'w \<Rightarrow>
     error list \<times> Event list \<times> 'w" where
  "issueLoop cfg isp img [] w = ([], [], w)"
| "issueLoop cfg isp img (a # as) w =
     (let ((n, err1), w1) = GetOrCreateAttestationNote cfg w a;
          (s, err2) = Secret cfg (Namespace isp) (PrivateKeySecretName a);
          (err3, w3) = CreateAttestationOccurence cfg w1 n img s;
          (errs, evs, w') = issueLoop cfg isp img as w3
      in (List.map_filter id [err1, err2, err3] @ errs,
          [EvGetOrCreateAttestationNote a, EvSecret (Namespace isp) (PrivateKeySecretName a),
           EvCreateAttestationOccurence n img s] @ evs,
          w'))"

definition addAttestations ::
    "'w Config \<Rightarrow> Env \<Rightarrow> string \<Rightarrow> PGPAttestation list \<Rightarrow> ImageSecurityPolicy \<Rightarrow> 'w \<Rightarrow>
     ReviewError option \<times> Event list \<times> 'w" where
  "addAttestations cfg env img atts isp w =
     (case getAttestationAuthoritiesForISP cfg isp of
        (Inl err, evs) \<Rightarrow> (Some (FailedToGetAttestationAuthorities err), evs, w)
      | (Inr auths, evs) \<Rightarrow>
         if length auths = 0 then (Some (NoAttestationAuthoritiesConfigured (Name isp)), evs, w)
         else
           (let u = getUnAttested auths (namesLoop env Map.empty auths) atts
            in if length u = 0 then (None, evs, w)
               else
                 (case issueLoop cfg isp img u w of
                    (errMsgs, evs', w') \<Rightarrow>
                      (if length errMsgs = 0 then None
                       else Some (ErrorsAddingAttestations errMsgs), evs @ evs', w'))))"

text \<open>
  The loop over \<open>images\<close> inside \<open>Review\<close>, for one policy and its authorities. An
  error of \<open>addAttestations\<close> is logged only.
\<close>

fun reviewImages ::
    "'w Config \<Rightarrow> Env \<Rightarrow> ImageSecurityPolicy \<Rightarrow> AttestationAuthority list \<Rightarrow> string list \<Rightarrow>
     'w \<Rightarrow> ReviewError option \<times> Event list \<times> 'w" where
  "reviewImages cfg env isp auths [] w = (None, [], w)"
| "reviewImages cfg env isp auths (img # images) w =
     (case fetchAndVerifyAttestations cfg env img auths w of
        ((isAttested, attestations), evs1, w1) \<Rightarrow>
          if isAttested \<and> IsWebhook cfg then
            (case reviewImages cfg env isp auths images w1 of
               (r, evs, w') \<Rightarrow> (r, evs1 @ evs, w'))
          else
            (case Validate cfg w1 isp img of
               (violations, Some err) \<Rightarrow>
                 (Some (FailedValidatingImageSecurityPolicy err),
                  evs1 @ [EvValidate isp img], w1)
             | (violations, None) \<Rightarrow>
                 if length violations \<noteq> 0 then
                   (case handleViolations cfg img violations w1 of
                      (e, evs2, w2) \<Rightarrow> (Some e, evs1 @ [EvValidate isp img] @ evs2, w2))
                 else
                   (case (if IsWebhook cfg then addAttestations cfg env img attestations isp w1
                          else (None, [], w1)) of
                      (err, evs3, w3) \<Rightarrow>
                        (case reviewImages cfg env isp auths images w3 of
                           (r, evs, w') \<Rightarrow>
                             (r, evs1 @ [EvValidate isp img] @ evs3 @ evs, w')))))"

text \<open>The loop over \<open>isps\<close> inside \<open>Review\<close>.\<close>

fun reviewISPs ::
    "'w Config \<Rightarrow> Env \<Rightarrow> string list \<Rightarrow> ImageSecurityPolicy list \<Rightarrow> 'w \<Rightarrow>
     ReviewError option \<times> Event list \<times> 'w" where
  "reviewISPs cfg env images [] w = (None, [], w)"
| "reviewISPs cfg env images (isp # isps) w =
     (case getAttestationAuthoritiesForISP cfg isp of
        (Inl err, evs0) \<Rightarrow> (Some (FailedToGetAttestationAuthorities err), evs0, w)
      | (Inr auths, evs0) \<Rightarrow>
         (case reviewImages cfg env isp auths images w of
            (Some e, evs1, w1) \<Rightarrow> (Some e, evs0 @ evs1, w1)
          | (None, evs1, w1) \<Rightarrow>
             (case reviewISPs cfg env images isps w1 of
                (r, evs, w') \<Rightarrow> (r, evs0 @ evs1 @ evs, w'))))"

text \<open>\<open>Reviewer.Review\<close>\<close>

definition Review ::
    "'w Config \<Rightarrow> Env \<Rightarrow> string list \<Rightarrow> ImageSecurityPolicy list \<Rightarrow> 'w \<Rightarrow>
     ReviewError option \<times> Event list \<times> 'w" where
  "Review cfg env images isps w =
     (if length isps = 0 then (None, [], w)
      else
        (let images1 = RemoveGloballyWhitelistedImages env images
         in if length images1 = 0 then (None, [], w)
            else
              (case ClusterWhitelistedImagesRemover cfg images1 of
                 (images2, Some err) \<Rightarrow> (Some (Upstream err), [], w)
               | (images2, None) \<Rightarrow>
                   if length images2 = 0 then (None, [], w)
                   else reviewISPs cfg env images2 isps w)))"

section \<open>The vulnerability scan as the specification words it\<close>

text \<open>
  The specification describes the scan one vulnerability at a time. \<open>spec_vulnError\<close> is
  the error a vulnerability raises, if any: a whitelisted CVE is skipped before any
  comparison; otherwise the severity is compared against \<open>maximumFixUnavailableSeverity\<close>
  when no fix is available and against \<open>maximumSeverity\<close> when one is, and an error of
  that comparison aborts. \<open>spec_vulnViolations\<close> is what the vulnerability contributes
  to the violation list when the comparison raises no error: nothing when it is
  whitelisted or within the threshold, one Fix-Unavailable or one Severity violation
  otherwise.
\<close>

definition spec_vulnError ::
    "severity_table \<Rightarrow> ImageSecurityPolicy \<Rightarrow> string \<Rightarrow> string \<Rightarrow> Vulnerability \<Rightarrow> error option" where
  "spec_vulnError sv isp mx mxNoFix v =
     (if CVE v \<in> set (WhitelistCVEs isp) then None
      else if \<not> HasFixAvailable v then snd (severityWithinThreshold sv mxNoFix (Severity v))
      else snd (severityWithinThreshold sv mx (Severity v)))"

definition spec_vulnViolations ::
    "severity_table \<Rightarrow> ImageSecurityPolicy \<Rightarrow> string \<Rightarrow> string \<Rightarrow> string \<Rightarrow> Vulnerability \<Rightarrow>
     Violation list" where
  "spec_vulnViolations sv isp img mx mxNoFix v =
     (if CVE v \<in> set (WhitelistCVEs isp) then []
      else if \<not> HasFixAvailable v then
        (if fst (severityWithinThreshold sv mxNoFix (Severity v)) then []
         else [\<lparr>vulnerability = Some v, vType = FixUnavailableViolation,
                reason = FixUnavailableReason img v isp\<rparr>])
      else
        (if fst (severityWithinThreshold sv mx (Severity v)) then []
         else [\<lparr>vulnerability = Some v, vType = SeverityViolation,
                reason = SeverityReason img v isp\<rparr>]))"

section \<open>Sample inputs\<close>

text \<open>
  A small concrete environment, policy and backend on which the theorems below are
  instantiated. The libraries are stood in for by simple functions: an image counts as
  fully qualified when it contains \<open>@\<close>, and a signature verifies when it is the key
  followed by the payload.
\<close>

definition exampleEnv :: Env where
  "exampleEnv =
     \<lparr>SeverityTable = Severity_value,
      FullyQualifiedImage = (\<lambda>i. CHR ''@'' \<in> set i),
      ARKCI_SIGNATURE_NOTE = ''ark-note'',
      KMSVerfiyKeyfunc = None,
      jwt_Parse = (\<lambda>j. if j = ''ark-jwt''
                        then Inr \<lparr>Valid = True, TokenClaims = MapClaims (Some ''ark'')\<rparr>
                        else Inl (Err ''malformed token'')),
      NewAtomicContainerSig = (\<lambda>i. Inr i),
      VerifyAttestationSignature =
        (\<lambda>host key sig. if sig = key @ host then None else Some (Err ''bad signature'')),
      DecodeString = (\<lambda>d. Inr d),
      PgpFingerprint = (\<lambda>k. Inr (''fp-'' @ k)),
      RemoveGloballyWhitelistedImages = (\<lambda>images. images)\<rparr>"

definition exampleISP :: ImageSecurityPolicy where
  "exampleISP =
     \<lparr>Name = ''isp'', Namespace = ''ns'',
      ImageWhitelist = [''gcr.io/a/base@1''],
      MaximumSeverity = ''MEDIUM'',
      MaximumFixUnavailableSeverity = ''HIGH'',
      WhitelistCVEs = [''CVE-1''],
      BuiltProjectIDs = [],
      RequireAttestationsBy = [],
      AttestationAuthorityNames = [''auth'']\<rparr>"

definition exampleVulnz :: "Vulnerability list" where
  "exampleVulnz =
     [\<lparr>CVE = ''CVE-1'', Severity = ''BOGUS'', HasFixAvailable = True\<rparr>,
      \<lparr>CVE = ''CVE-2'', Severity = ''HIGH'', HasFixAvailable = True\<rparr>,
      \<lparr>CVE = ''CVE-3'', Severity = ''HIGH'', HasFixAvailable = False\<rparr>,
      \<lparr>CVE = ''CVE-4'', Severity = ''CRITICAL'', HasFixAvailable = False\<rparr>,
      \<lparr>CVE = ''CVE-5'', Severity = ''LOW'', HasFixAvailable = True\<rparr>]"

definition exampleFetcher :: Fetcher where
  "exampleFetcher =
     \<lparr>Vulnerabilities = (\<lambda>i. (exampleVulnz, None)),
      OccurencesV1 = (\<lambda>i. ([], None)),
      Attestations = (\<lambda>i. ([], None))\<rparr>"

definition exampleAttestors :: AttestorFetcher where
  "exampleAttestors name =
     (if name = ''build-bot''
      then (Some \<lparr>AttestorName = ''build-bot'',
                   PublicKeys = [\<lparr>ID = ''fp-K'', AsciiArmor = ''K''\<rparr>]\<rparr>, None)
      else (None, None))"

definition exampleImage :: string where
  "exampleImage =
     ''gcr.io/a/app@sha256:0123456789abcdef0123456789abcdef0123456789abcdef0123456789abcdef''"

definition exampleBadVulnz :: "Vulnerability list" where
  "exampleBadVulnz =
     [\<lparr>CVE = ''CVE-2'', Severity = ''HIGH'', HasFixAvailable = True\<rparr>,
      \<lparr>CVE = ''CVE-6'', Severity = ''BOGUS'', HasFixAvailable = True\<rparr>,
      \<lparr>CVE = ''CVE-5'', Severity = ''LOW'', HasFixAvailable = True\<rparr>]"

definition exampleBadFetcher :: Fetcher where
  "exampleBadFetcher = exampleFetcher\<lparr>Vulnerabilities := (\<lambda>i. (exampleBadVulnz, None))\<rparr>"

text \<open>A backend whose occurrence listing fails while the other two fetches succeed.\<close>

definition exampleOccFailFetcher :: Fetcher where
  "exampleOccFailFetcher =
     \<lparr>Vulnerabilities = (\<lambda>i. ([], None)),
      OccurencesV1 = (\<lambda>i. ([], Some (Err ''backend unavailable''))),
      Attestations = (\<lambda>i. ([], None))\<rparr>"

lemmas example_defs =
  exampleImage_def exampleEnv_def exampleISP_def exampleVulnz_def exampleFetcher_def
  exampleBadVulnz_def exampleBadFetcher_def exampleOccFailFetcher_def exampleAttestors_def

lemmas evaluator_defs =
  ValidateImageSecurityPolicy_def imageInWhitelist_def cveInWhitelist_def maxSev_def
  maxNoFixSev_def severityWithinThreshold_def Severity_value_def spec_latticeRank_def
  BlockAll_def AllowAll_def
  checkBuiltProjectIDs_def NewViolation_def

text \<open>A backend with nothing to report, and two policies that require attestors.\<close>

definition exampleCleanFetcher :: Fetcher where
  "exampleCleanFetcher =
     \<lparr>Vulnerabilities = (\<lambda>i. ([], None)),
      OccurencesV1 = (\<lambda>i. ([], None)),
      Attestations = (\<lambda>i. ([], None))\<rparr>"

definition exampleAttestISP :: ImageSecurityPolicy where
  "exampleAttestISP = exampleISP\<lparr>RequireAttestationsBy := [''build-bot'']\<rparr>"

definition exampleGhostISP :: ImageSecurityPolicy where
  "exampleGhostISP = exampleISP\<lparr>RequireAttestationsBy := [''build-bot'', ''ghost'']\<rparr>"

lemmas example_attest_defs =
  exampleCleanFetcher_def exampleAttestISP_def exampleGhostISP_def

text \<open>
  A policy with permitted builder projects, and a backend that holds one occurrence under
  the signature note, carrying a JWT signed for project \<open>ark\<close>.
\<close>

definition exampleBuiltISP :: ImageSecurityPolicy where
  "exampleBuiltISP = exampleISP\<lparr>BuiltProjectIDs := [''b'', ''ark'']\<rparr>"

definition exampleArkFetcher :: Fetcher where
  "exampleArkFetcher =
     exampleCleanFetcher\<lparr>OccurencesV1 :=
       (\<lambda>i. ([\<lparr>NoteName = ''ark-note'', Jwts = [''ark-jwt'']\<rparr>], None))\<rparr>"

lemmas example_built_defs =
  exampleBuiltISP_def exampleArkFetcher_def exampleCleanFetcher_def

text \<open>A policy that leaves both severity thresholds empty.\<close>

definition exampleDefaultISP :: ImageSecurityPolicy where
  "exampleDefaultISP =
     exampleISP\<lparr>MaximumSeverity := [], MaximumFixUnavailableSeverity := []\<rparr>"

text \<open>
  A reviewer in webhook mode. The world is the list of attestations the backend holds;
  the configured \<open>Validate\<close> is the evaluator above, on a backend that reports a critical
  vulnerability without a fix. The one authority has the key \<open>K\<close>, with fingerprint
  \<open>fp-K\<close>.
\<close>

definition exampleAuthority :: AttestationAuthority where
  "exampleAuthority =
     \<lparr>AuthName = ''auth'', NoteReference = ''note'', PrivateKeySecretName = ''secret'',
      PublicKeyData = ''K''\<rparr>"

definition exampleAttestation :: PGPAttestation where
  "exampleAttestation = \<lparr>KeyID = ''fp-K'', Signature = ''K'' @ exampleImage, OccID = ''occ''\<rparr>"

definition exampleConfig :: "PGPAttestation list Config" where
  "exampleConfig =
     \<lparr>Validate =
        (\<lambda>w isp i. fst (ValidateImageSecurityPolicy exampleEnv isp i
           \<lparr>Vulnerabilities =
              (\<lambda>i. ([\<lparr>CVE = ''CVE-4'', Severity = ''CRITICAL'', HasFixAvailable = False\<rparr>],
                    None)),
            OccurencesV1 = (\<lambda>i. ([], None)),
            Attestations = (\<lambda>i. (w, None))\<rparr>
           exampleAttestors)),
      Secret = (\<lambda>ns n. (Some ''key material'', None)),
      Auths = (\<lambda>ns n. if n = ''auth'' then Inr exampleAuthority else Inl (Err ''no authority'')),
      ClusterWhitelistedImagesRemover = (\<lambda>images. (images, None)),
      IsWebhook = True,
      ClientAttestations = (\<lambda>w i. (w, None)),
      HandleAttestation = (\<lambda>w i b. (None, w)),
      HandleViolation = (\<lambda>w i vs. (None, w)),
      GetOrCreateAttestationNote = (\<lambda>w a. ((Some (NoteReference a), None), w)),
      CreateAttestationOccurence = (\<lambda>w n i s. (None, w))\<rparr>"

lemmas example_review_defs =
  exampleAuthority_def exampleAttestation_def exampleConfig_def

text \<open>
  An attestation signed with the authority's key \<open>K\<close> whose key id is not the
  fingerprint of that key.
\<close>

definition exampleForeignAttestation :: PGPAttestation where
  "exampleForeignAttestation =
     \<lparr>KeyID = ''fp-other'', Signature = ''K'' @ exampleImage, OccID = ''occ''\<rparr>"

text \<open>
  A backend that reports a whitelisted vulnerability with an unknown severity and a
  vulnerability whose severity is the zero value of the enum.
\<close>

definition exampleUnspecifiedVulnz :: "Vulnerability list" where
  "exampleUnspecifiedVulnz =
     [\<lparr>CVE = ''CVE-1'', Severity = ''BOGUS'', HasFixAvailable = True\<rparr>,
      \<lparr>CVE = ''CVE-7'', Severity = ''SEVERITY_UNSPECIFIED'', HasFixAvailable = True\<rparr>]"

definition exampleUnspecifiedFetcher :: Fetcher where
  "exampleUnspecifiedFetcher =
     exampleCleanFetcher\<lparr>Vulnerabilities := (\<lambda>i. (exampleUnspecifiedVulnz, None))\<rparr>"

text \<open>A backend that reports two vulnerabilities without a fix, one with an unknown severity.\<close>

definition exampleNoFixVulnz :: "Vulnerability list" where
  "exampleNoFixVulnz =
     [\<lparr>CVE = ''CVE-8'', Severity = ''BOGUS'', HasFixAvailable = False\<rparr>,
      \<lparr>CVE = ''CVE-4'', Severity = ''CRITICAL'', HasFixAvailable = False\<rparr>]"

definition exampleNoFixFetcher :: Fetcher where
  "exampleNoFixFetcher =
     exampleCleanFetcher\<lparr>Vulnerabilities := (\<lambda>i. (exampleNoFixVulnz, None))\<rparr>"

text \<open>
  An image with a digest and no registry, and an environment in which the signature
  payload is built only for an image that names the registry \<open>gcr.io\<close>.
\<close>

definition exampleBareImage :: string where
  "exampleBareImage =
     ''app@sha256:0123456789abcdef0123456789abcdef0123456789abcdef0123456789abcdef''"

definition exampleStrictEnv :: Env where
  "exampleStrictEnv =
     exampleEnv\<lparr>NewAtomicContainerSig :=
       (\<lambda>i. if HasPrefix i ''gcr.io/'' then Inr i else Inl (Err ''registry not explicit''))\<rparr>"

lemmas example_revision_defs =
  exampleUnspecifiedVulnz_def exampleUnspecifiedFetcher_def exampleNoFixVulnz_def
  exampleNoFixFetcher_def exampleBareImage_def exampleStrictEnv_def

text \<open>
  An environment in which every key has the same fingerprint, and two authorities with
  different keys.
\<close>

definition exampleCollidingEnv :: Env where
  "exampleCollidingEnv = exampleEnv\<lparr>PgpFingerprint := (\<lambda>k. Inr ''fp'')\<rparr>"

definition exampleAuthorityOne :: AttestationAuthority where
  "exampleAuthorityOne = exampleAuthority\<lparr>AuthName := ''one'', PublicKeyData := ''K1''\<rparr>"

definition exampleAuthorityTwo :: AttestationAuthority where
  "exampleAuthorityTwo = exampleAuthority\<lparr>AuthName := ''two'', PublicKeyData := ''K2''\<rparr>"

lemmas example_colliding_defs =
  exampleCollidingEnv_def exampleAuthorityOne_def exampleAuthorityTwo_def

section \<open>The threshold test\<close>

text \<open>
  Claim C10. Whatever the severity string, a threshold of \<open>"BLOCK_ALL"\<close> answers
  \<open>(false, nil)\<close> and a threshold of \<open>"ALLOW_ALL"\<close> answers \<open>(true, nil)\<close>: the sentinels
  are decided before the severity is looked up, so no severity string, valid or not, can
  raise an error under a sentinel threshold. The table is arbitrary.
\<close>

theorem severityWithinThreshold_sentinels_first:
  "severityWithinThreshold sv ''BLOCK_ALL'' actual = (False, None)
   \<and> severityWithinThreshold sv ''ALLOW_ALL'' actual = (True, None)"
  by (simp add: severityWithinThreshold_def BlockAll_def AllowAll_def)

text \<open>
  For any table, in the order of the source: block-all gives false; allow-all gives true;
  with any other threshold, a threshold or a severity that is not a key of the table gives
  an error; with both in the table, the answer is the comparison of the ranks.
\<close>

lemma severityWithinThreshold_any_table:
  "severityWithinThreshold sv BlockAll actual = (False, None)
   \<and> severityWithinThreshold sv AllowAll actual = (True, None)
   \<and> (mx \<noteq> BlockAll \<longrightarrow> mx \<noteq> AllowAll \<longrightarrow> (sv mx = None \<or> sv actual = None) \<longrightarrow>
        (\<exists>e. severityWithinThreshold sv mx actual = (False, Some e)))
   \<and> (mx \<noteq> BlockAll \<longrightarrow> mx \<noteq> AllowAll \<longrightarrow> sv mx = Some rmax \<longrightarrow> sv actual = Some r \<longrightarrow>
        severityWithinThreshold sv mx actual = (r \<le> rmax, None))
   \<and> (S \<noteq> BlockAll \<longrightarrow> sv S = Some rs \<longrightarrow> severityWithinThreshold sv S S = (True, None))"
  by (auto simp add: severityWithinThreshold_def BlockAll_def AllowAll_def split: option.splits)

lemma Severity_value_None_iff:
  "Severity_value s = None \<longleftrightarrow> spec_latticeRank s = None \<and> s \<noteq> ''SEVERITY_UNSPECIFIED''"
  by (simp add: Severity_value_def)

lemma spec_latticeRank_not_sentinel:
  "spec_latticeRank s = Some r \<Longrightarrow>
   s \<noteq> BlockAll \<and> s \<noteq> AllowAll \<and> s \<noteq> ''SEVERITY_UNSPECIFIED'' \<and> 1 \<le> r \<and> r \<le> 5"
  by (auto simp add: spec_latticeRank_def BlockAll_def AllowAll_def split: if_splits)

text \<open>
  Claim C4 as stated says that a threshold or a severity that is not a lattice level gives
  an error. The table of the program has a sixth key, \<open>SEVERITY_UNSPECIFIED\<close>, which is
  not a lattice level: as a severity it is within the threshold LOW, and as a threshold it
  is accepted and answers false for the severity LOW; neither call returns an error.
\<close>

theorem unspecified_severity_is_accepted:
  "''LOW'' \<noteq> BlockAll \<and> ''LOW'' \<noteq> AllowAll
   \<and> ''SEVERITY_UNSPECIFIED'' \<noteq> BlockAll \<and> ''SEVERITY_UNSPECIFIED'' \<noteq> AllowAll
   \<and> spec_latticeRank ''SEVERITY_UNSPECIFIED'' = None
   \<and> severityWithinThreshold Severity_value ''LOW'' ''SEVERITY_UNSPECIFIED'' = (True, None)
   \<and> severityWithinThreshold Severity_value ''SEVERITY_UNSPECIFIED'' ''LOW'' = (False, None)"
  by (simp add: severityWithinThreshold_def Severity_value_def spec_latticeRank_def
        BlockAll_def AllowAll_def)

text \<open>
  Claim C4, amended. On the table of the program: block-all gives false and allow-all
  gives true (for any table); with any other threshold, a threshold that is neither a
  lattice level nor \<open>SEVERITY_UNSPECIFIED\<close> gives the error "invalid max severity level",
  and a severity that is neither, under a threshold of the table, gives the error "invalid
  severity level"; for two lattice levels the answer is the comparison of their ranks in
  the order MINIMAL, LOW, MEDIUM, HIGH, CRITICAL; \<open>SEVERITY_UNSPECIFIED\<close> is accepted and
  ranks below every level: as a severity it is within every level, as a threshold it
  admits only itself. In particular every lattice level is within itself.
\<close>

theorem severityWithinThreshold_program_table:
  "severityWithinThreshold sv BlockAll actual = (False, None)
   \<and> severityWithinThreshold sv AllowAll actual = (True, None)
   \<and> (mx \<noteq> BlockAll \<longrightarrow> mx \<noteq> AllowAll \<longrightarrow>
        spec_latticeRank mx = None \<longrightarrow> mx \<noteq> ''SEVERITY_UNSPECIFIED'' \<longrightarrow>
        severityWithinThreshold Severity_value mx actual
          = (False, Some (InvalidMaxSeverityLevel mx)))
   \<and> (mx \<noteq> BlockAll \<longrightarrow> mx \<noteq> AllowAll \<longrightarrow> Severity_value mx = Some rmx \<longrightarrow>
        spec_latticeRank actual = None \<longrightarrow> actual \<noteq> ''SEVERITY_UNSPECIFIED'' \<longrightarrow>
        severityWithinThreshold Severity_value mx actual
          = (False, Some (InvalidSeverityLevel actual)))
   \<and> (spec_latticeRank mx = Some rmax \<longrightarrow> spec_latticeRank actual = Some r \<longrightarrow>
        severityWithinThreshold Severity_value mx actual = (r \<le> rmax, None))
   \<and> (spec_latticeRank mx = Some rmax \<longrightarrow>
        severityWithinThreshold Severity_value mx ''SEVERITY_UNSPECIFIED'' = (True, None))
   \<and> (spec_latticeRank actual = Some r \<longrightarrow>
        severityWithinThreshold Severity_value ''SEVERITY_UNSPECIFIED'' actual = (False, None))
   \<and> severityWithinThreshold Severity_value ''SEVERITY_UNSPECIFIED'' ''SEVERITY_UNSPECIFIED''
       = (True, None)
   \<and> (spec_latticeRank S = Some rs \<longrightarrow>
        severityWithinThreshold Severity_value S S = (True, None))"
proof (intro conjI impI)
  show "severityWithinThreshold sv BlockAll actual = (False, None)"
    by (simp add: severityWithinThreshold_def)
  show "severityWithinThreshold sv AllowAll actual = (True, None)"
    by (simp add: severityWithinThreshold_def BlockAll_def AllowAll_def)
  show "severityWithinThreshold Severity_value mx actual
          = (False, Some (InvalidMaxSeverityLevel mx))"
    if "mx \<noteq> BlockAll" "mx \<noteq> AllowAll" "spec_latticeRank mx = None"
      "mx \<noteq> ''SEVERITY_UNSPECIFIED''"
    using that by (simp add: severityWithinThreshold_def Severity_value_def)
  show "severityWithinThreshold Severity_value mx actual
          = (False, Some (InvalidSeverityLevel actual))"
    if "mx \<noteq> BlockAll" "mx \<noteq> AllowAll" "Severity_value mx = Some rmx"
      "spec_latticeRank actual = None" "actual \<noteq> ''SEVERITY_UNSPECIFIED''"
  proof -
    have "Severity_value actual = None"
      using that by (simp add: Severity_value_None_iff)
    then show ?thesis
      using that by (simp add: severityWithinThreshold_def)
  qed
  show "severityWithinThreshold Severity_value mx actual = (r \<le> rmax, None)"
    if "spec_latticeRank mx = Some rmax" "spec_latticeRank actual = Some r"
    using that spec_latticeRank_not_sentinel [of mx rmax] spec_latticeRank_not_sentinel [of actual r]
    by (simp add: severityWithinThreshold_def Severity_value_def)
  show "severityWithinThreshold Severity_value mx ''SEVERITY_UNSPECIFIED'' = (True, None)"
    if "spec_latticeRank mx = Some rmax"
    using that spec_latticeRank_not_sentinel [of mx rmax]
    by (simp add: severityWithinThreshold_def Severity_value_def)
  show "severityWithinThreshold Severity_value ''SEVERITY_UNSPECIFIED'' actual = (False, None)"
    if "spec_latticeRank actual = Some r"
    using that spec_latticeRank_not_sentinel [of actual r]
    by (simp add: severityWithinThreshold_def Severity_value_def BlockAll_def AllowAll_def)
  show "severityWithinThreshold Severity_value ''SEVERITY_UNSPECIFIED'' ''SEVERITY_UNSPECIFIED''
       = (True, None)"
    by (simp add: severityWithinThreshold_def Severity_value_def BlockAll_def AllowAll_def)
  show "severityWithinThreshold Severity_value S S = (True, None)"
    if "spec_latticeRank S = Some rs"
    using that spec_latticeRank_not_sentinel [of S rs]
    by (simp add: severityWithinThreshold_def Severity_value_def)
qed

theorem severityWithinThreshold_program_table_witness:
  "''MEDIUM'' \<noteq> BlockAll \<and> ''MEDIUM'' \<noteq> AllowAll
   \<and> ''BOGUS'' \<noteq> BlockAll \<and> ''BOGUS'' \<noteq> AllowAll
   \<and> spec_latticeRank ''BOGUS'' = None \<and> ''BOGUS'' \<noteq> ''SEVERITY_UNSPECIFIED''
   \<and> spec_latticeRank ''MEDIUM'' = Some 3 \<and> spec_latticeRank ''HIGH'' = Some 4
   \<and> Severity_value ''MEDIUM'' = Some 3
   \<and> severityWithinThreshold Severity_value ''BOGUS'' ''HIGH''
       = (False, Some (InvalidMaxSeverityLevel ''BOGUS''))
   \<and> severityWithinThreshold Severity_value ''MEDIUM'' ''BOGUS''
       = (False, Some (InvalidSeverityLevel ''BOGUS''))
   \<and> severityWithinThreshold Severity_value ''MEDIUM'' ''HIGH'' = (False, None)
   \<and> severityWithinThreshold Severity_value ''HIGH'' ''MEDIUM'' = (True, None)
   \<and> severityWithinThreshold Severity_value ''MEDIUM'' ''SEVERITY_UNSPECIFIED'' = (True, None)
   \<and> severityWithinThreshold Severity_value ''SEVERITY_UNSPECIFIED'' ''MEDIUM'' = (False, None)
   \<and> severityWithinThreshold Severity_value ''HIGH'' ''HIGH'' = (True, None)"
proof -
  have h: "''MEDIUM'' \<noteq> BlockAll" "''MEDIUM'' \<noteq> AllowAll"
    "''BOGUS'' \<noteq> BlockAll" "''BOGUS'' \<noteq> AllowAll"
    "spec_latticeRank ''BOGUS'' = None" "''BOGUS'' \<noteq> ''SEVERITY_UNSPECIFIED''"
    "spec_latticeRank ''MEDIUM'' = Some 3" "spec_latticeRank ''HIGH'' = Some 4"
    "Severity_value ''MEDIUM'' = Some 3"
    by (simp_all add: BlockAll_def AllowAll_def Severity_value_def spec_latticeRank_def)
  note a = severityWithinThreshold_program_table
             [of Severity_value "''HIGH''" "''BOGUS''" 0 0 0 "''HIGH''" 4]
  note b = severityWithinThreshold_program_table
             [of Severity_value "''BOGUS''" "''MEDIUM''" 3 3 0 "''HIGH''" 4]
  note c = severityWithinThreshold_program_table
             [of Severity_value "''HIGH''" "''MEDIUM''" 3 3 4 "''HIGH''" 4]
  note d = severityWithinThreshold_program_table
             [of Severity_value "''MEDIUM''" "''HIGH''" 4 4 3 "''HIGH''" 4]
  show ?thesis
    using h a b c d by simp
qed

section \<open>The first two steps of the evaluator\<close>

text \<open>
  Claim C1. If the image is a member of the policy's image whitelist (an exact string
  match), the evaluator returns no violation and no error, and its call log is empty: it
  fetches no vulnerability, occurrence, attestation or attestor, so nothing the backend
  would report can change the result. Environment and fetchers are arbitrary.
\<close>

theorem whitelisted_image_no_violations:
  "img \<in> set (ImageWhitelist isp) \<Longrightarrow>
   ValidateImageSecurityPolicy env isp img metadataFetcher attestorFetcher = (([], None), [])"
  by (simp add: ValidateImageSecurityPolicy_def imageInWhitelist_def)

theorem whitelisted_image_no_violations_witness:
  "''gcr.io/a/base@1'' \<in> set (ImageWhitelist exampleISP)
   \<and> ValidateImageSecurityPolicy exampleEnv exampleISP ''gcr.io/a/base@1''
        exampleFetcher exampleAttestors = (([], None), [])"
proof -
  have h: "''gcr.io/a/base@1'' \<in> set (ImageWhitelist exampleISP)"
    by (simp add: exampleISP_def)
  show ?thesis
    using h whitelisted_image_no_violations [OF h, of exampleEnv exampleFetcher exampleAttestors]
    by simp
qed

text \<open>
  Claim C9. For an image that is not whitelisted and not fully qualified, the evaluator
  returns exactly one violation, of kind Unqualified-Image, with a nil error, and its call
  log is empty: no vulnerability, occurrence or attestation is fetched and no later check
  runs.
\<close>

theorem unqualified_image_single_violation:
  "img \<notin> set (ImageWhitelist isp) \<Longrightarrow> \<not> FullyQualifiedImage env img \<Longrightarrow>
   ValidateImageSecurityPolicy env isp img metadataFetcher attestorFetcher =
     (([\<lparr>vulnerability = None, vType = UnqualifiedImageViolation,
         reason = UnqualifiedImageReason img\<rparr>], None), [])"
  by (simp add: ValidateImageSecurityPolicy_def imageInWhitelist_def)

theorem unqualified_image_single_violation_witness:
  "''nginx'' \<notin> set (ImageWhitelist exampleISP) \<and> \<not> FullyQualifiedImage exampleEnv ''nginx''
   \<and> ValidateImageSecurityPolicy exampleEnv exampleISP ''nginx'' exampleFetcher exampleAttestors =
       (([\<lparr>vulnerability = None, vType = UnqualifiedImageViolation,
           reason = UnqualifiedImageReason ''nginx''\<rparr>], None), [])"
proof -
  have h1: "''nginx'' \<notin> set (ImageWhitelist exampleISP)"
    by (simp add: exampleISP_def)
  have h2: "\<not> FullyQualifiedImage exampleEnv ''nginx''"
    by (simp add: exampleEnv_def)
  show ?thesis
    using h1 h2
      unqualified_image_single_violation [OF h1 h2, of exampleFetcher exampleAttestors]
    by simp
qed

section \<open>The vulnerability scan\<close>

lemma vulnzLoop_closed_form:
  "vulnzLoop sv isp img mx mxNoFix acc vs =
     (acc @ concat (map (spec_vulnViolations sv isp img mx mxNoFix)
                      (takeWhile (\<lambda>v. spec_vulnError sv isp mx mxNoFix v = None) vs)),
      (case dropWhile (\<lambda>v. spec_vulnError sv isp mx mxNoFix v = None) vs of
         [] \<Rightarrow> None
       | v # rest \<Rightarrow> spec_vulnError sv isp mx mxNoFix v))"
proof (induction vs arbitrary: acc)
  case Nil
  show ?case by simp
next
  case (Cons v vs)
  show ?case
    by (cases "severityWithinThreshold sv mxNoFix (Severity v)";
        cases "severityWithinThreshold sv mx (Severity v)")
       (auto simp add: Cons.IH spec_vulnError_def spec_vulnViolations_def cveInWhitelist_def)
qed

lemma vulnzLoop_no_error:
  assumes "\<forall>v \<in> set vs. spec_vulnError sv isp mx mxNoFix v = None"
  shows "vulnzLoop sv isp img mx mxNoFix acc vs =
           (acc @ concat (map (spec_vulnViolations sv isp img mx mxNoFix) vs), None)"
proof -
  have t: "takeWhile (\<lambda>v. spec_vulnError sv isp mx mxNoFix v = None) vs = vs"
    using assms by simp
  have d: "dropWhile (\<lambda>v. spec_vulnError sv isp mx mxNoFix v = None) vs = []"
    using assms by simp
  show ?thesis by (simp add: vulnzLoop_closed_form t d)
qed

lemma vulnzLoop_first_error:
  assumes "\<forall>u \<in> set pre. spec_vulnError sv isp mx mxNoFix u = None"
    and "spec_vulnError sv isp mx mxNoFix v = Some e"
  shows "vulnzLoop sv isp img mx mxNoFix acc (pre @ v # post) =
           (acc @ concat (map (spec_vulnViolations sv isp img mx mxNoFix) pre), Some e)"
proof -
  have t: "takeWhile (\<lambda>v. spec_vulnError sv isp mx mxNoFix v = None) (pre @ v # post) = pre"
    using assms by simp
  have d: "dropWhile (\<lambda>v. spec_vulnError sv isp mx mxNoFix v = None) (pre @ v # post) = v # post"
    using assms by simp
  show ?thesis by (simp add: vulnzLoop_closed_form t d assms(2))
qed

lemma vulnzLoop_error_iff:
  "snd (vulnzLoop sv isp img mx mxNoFix acc vs) = None
   \<longleftrightarrow> (\<forall>v \<in> set vs. spec_vulnError sv isp mx mxNoFix v = None)"
proof (cases "dropWhile (\<lambda>v. spec_vulnError sv isp mx mxNoFix v = None) vs")
  case Nil
  then have "\<forall>v \<in> set vs. spec_vulnError sv isp mx mxNoFix v = None"
    by simp
  then show ?thesis
    by (simp add: vulnzLoop_no_error)
next
  case (Cons v rest)
  have "dropWhile (\<lambda>v. spec_vulnError sv isp mx mxNoFix v = None) vs \<noteq> []"
    using Cons by simp
  from hd_dropWhile [OF this] have bad: "spec_vulnError sv isp mx mxNoFix v \<noteq> None"
    using Cons by simp
  have "v \<in> set (dropWhile (\<lambda>v. spec_vulnError sv isp mx mxNoFix v = None) vs)"
    using Cons by simp
  then have "v \<in> set vs"
    by (rule set_dropWhileD)
  with bad show ?thesis
    using Cons by (auto simp add: vulnzLoop_closed_form)
qed

lemma occsLoop_signed_independent:
  "snd (occsLoop env acc s occs) = snd (occsLoop env acc' s occs)"
  by (induction occs arbitrary: acc acc' s)
     (auto split: sum.splits Claims.splits option.splits)

lemma occsLoop_shape:
  "\<exists>J. fst (occsLoop env acc s occs) = acc @ J
        \<and> (\<forall>x \<in> set J. vType x = ArkCISignatureViolation)"
proof (induction occs arbitrary: acc s)
  case Nil
  show ?case by simp
next
  case (Cons occ occs)
  show ?case
  proof (cases "NoteName occ = ARKCI_SIGNATURE_NOTE env")
    case False
    then show ?thesis using Cons.IH [of acc s] by simp
  next
    case True
    show ?thesis
    proof (cases "verifyArkSignature env occ")
      case (Inl err)
      obtain J where J: "fst (occsLoop env
          (acc @ [NewViolation None ArkCISignatureViolation (ArkCISignatureReason err)]) s occs)
          = (acc @ [NewViolation None ArkCISignatureViolation (ArkCISignatureReason err)]) @ J"
        "\<forall>x \<in> set J. vType x = ArkCISignatureViolation"
        using Cons.IH by blast
      have "fst (occsLoop env acc s (occ # occs)) =
              acc @ (NewViolation None ArkCISignatureViolation (ArkCISignatureReason err) # J)"
        using True Inl J(1) by simp
      moreover have "\<forall>x \<in> set (NewViolation None ArkCISignatureViolation
                                   (ArkCISignatureReason err) # J).
                       vType x = ArkCISignatureViolation"
        using J(2) by (simp add: NewViolation_def)
      ultimately show ?thesis by blast
    next
      case (Inr token)
      then show ?thesis
        using True Cons.IH [of acc] by (simp split: Claims.splits)
    qed
  qed
qed

lemma requiredLoop_shape:
  "(\<exists>R calls. requiredLoop env af img atts acc rs = ((acc @ R, None), calls)
        \<and> (\<forall>x \<in> set R. vType x = RequiredAttestationViolation))
   \<or> (\<exists>e calls. requiredLoop env af img atts acc rs = (([], Some e), calls))"
proof (induction rs arbitrary: acc)
  case Nil
  show ?case by simp
next
  case (Cons r rs)
  obtain a eo where af: "af r = (a, eo)" by (cases "af r")
  show ?case
  proof (cases eo)
    case (Some err)
    then show ?thesis using af by (cases a) simp_all
  next
    case None
    note eoNone = None
    show ?thesis
    proof (cases a)
      case None
      then show ?thesis using af eoNone by simp
    next
      case (Some attestor)
      obtain ok ho where h: "hasRequiredAttestation env img attestor atts = (ok, ho)"
        by (cases "hasRequiredAttestation env img attestor atts")
      show ?thesis
      proof (cases ho)
        case (Some err)
        then show ?thesis using af eoNone \<open>a = Some attestor\<close> h by simp
      next
        case None
        let ?x = "NewViolation None RequiredAttestationViolation (RequiredAttestationReason img r)"
        let ?acc' = "if \<not> ok then acc @ [?x] else acc"
        have step: "requiredLoop env af img atts acc (r # rs) =
                (case requiredLoop env af img atts ?acc' rs of
                   (res, calls) \<Rightarrow> (res, CallGetAttestor r # calls))"
          using af eoNone \<open>a = Some attestor\<close> h None by simp
        from Cons.IH [of ?acc'] show ?thesis
        proof
          assume "\<exists>R calls. requiredLoop env af img atts ?acc' rs = ((?acc' @ R, None), calls)
                   \<and> (\<forall>x \<in> set R. vType x = RequiredAttestationViolation)"
          then obtain R calls where R: "requiredLoop env af img atts ?acc' rs = ((?acc' @ R, None), calls)"
            "\<forall>x \<in> set R. vType x = RequiredAttestationViolation" by blast
          have "requiredLoop env af img atts acc (r # rs) =
                  ((acc @ ((if \<not> ok then [?x] else []) @ R), None), CallGetAttestor r # calls)"
            using step R(1) by simp
          moreover have "\<forall>x \<in> set ((if \<not> ok then [?x] else []) @ R).
                            vType x = RequiredAttestationViolation"
            using R(2) by (auto simp add: NewViolation_def)
          ultimately show ?thesis by blast
        next
          assume "\<exists>e calls. requiredLoop env af img atts ?acc' rs = (([], Some e), calls)"
          then obtain e calls where "requiredLoop env af img atts ?acc' rs = (([], Some e), calls)"
            by blast
          then have "requiredLoop env af img atts acc (r # rs) = (([], Some e), CallGetAttestor r # calls)"
            using step by simp
          then show ?thesis by blast
        qed
      qed
    qed
  qed
qed

lemma checkBuiltProjectIDs_acc:
  "checkBuiltProjectIDs isp img s acc = acc @ checkBuiltProjectIDs isp img s []"
  by (simp add: checkBuiltProjectIDs_def)

lemma Validate_success_shape:
  assumes nw: "img \<notin> set (ImageWhitelist isp)"
    and fq: "FullyQualifiedImage env img"
    and vz: "Vulnerabilities mf img = (vulnz, None)"
    and ok: "snd (fst (ValidateImageSecurityPolicy env isp img mf af)) = None"
  shows "\<exists>J R. fst (fst (ValidateImageSecurityPolicy env isp img mf af)) =
            concat (map (spec_vulnViolations (SeverityTable env) isp img (maxSev isp) (maxNoFixSev isp)) vulnz)
            @ J
            @ checkBuiltProjectIDs isp img (snd (occsLoop env [] [] (fst (OccurencesV1 mf img)))) []
            @ R
          \<and> (\<forall>x \<in> set J. vType x = ArkCISignatureViolation)
          \<and> (\<forall>x \<in> set R. vType x = RequiredAttestationViolation)
          \<and> (\<forall>v \<in> set vulnz. spec_vulnError (SeverityTable env) isp (maxSev isp) (maxNoFixSev isp) v = None)"
proof -
  let ?sv = "SeverityTable env"
  let ?r = "ValidateImageSecurityPolicy env isp img mf af"
  obtain V eo where scan: "vulnzLoop ?sv isp img (maxSev isp) (maxNoFixSev isp) [] vulnz = (V, eo)"
    by (cases "vulnzLoop ?sv isp img (maxSev isp) (maxNoFixSev isp) [] vulnz")
  have eo: "eo = None"
  proof (cases eo)
    case None then show ?thesis .
  next
    case (Some err)
    then have "snd (fst ?r) = Some err"
      using nw fq vz scan by (simp add: ValidateImageSecurityPolicy_def imageInWhitelist_def)
    with ok show ?thesis by simp
  qed
  have noerr: "\<forall>v \<in> set vulnz. spec_vulnError ?sv isp (maxSev isp) (maxNoFixSev isp) v = None"
    using vulnzLoop_error_iff [of ?sv isp img "maxSev isp" "maxNoFixSev isp" "[]" vulnz] scan eo
    by simp
  have V: "V = concat (map (spec_vulnViolations ?sv isp img (maxSev isp) (maxNoFixSev isp)) vulnz)"
    using vulnzLoop_no_error [OF noerr, of img "[]"] scan by simp
  obtain occs oerr where occ: "OccurencesV1 mf img = (occs, oerr)"
    by (cases "OccurencesV1 mf img")
  obtain V1 s where ol: "occsLoop env V [] occs = (V1, s)"
    by (cases "occsLoop env V [] occs")
  obtain J where J: "V1 = V @ J" "\<forall>x \<in> set J. vType x = ArkCISignatureViolation"
    using occsLoop_shape [of env V "[]" occs] ol by auto
  have s: "s = snd (occsLoop env [] [] (fst (OccurencesV1 mf img)))"
    using occsLoop_signed_independent [of env V "[]" occs "[]"] ol occ by simp
  let ?B = "checkBuiltProjectIDs isp img s []"
  have V2: "checkBuiltProjectIDs isp img s V1 = V @ J @ ?B"
    using checkBuiltProjectIDs_acc [of isp img s V1] J(1) by simp
  show ?thesis
  proof (cases "RequireAttestationsBy isp = []")
    case True
    then have "fst (fst ?r) = V @ J @ ?B @ []"
      using nw fq vz scan eo occ ol V2
      by (simp add: ValidateImageSecurityPolicy_def imageInWhitelist_def)
    then show ?thesis using V s J(2) noerr
      by (intro exI [of _ J] exI [of _ "[]"]) simp
  next
    case False
    obtain atts aerr where at: "Attestations mf img = (atts, aerr)"
      by (cases "Attestations mf img")
    have aerr: "aerr = None"
    proof (cases aerr)
      case None then show ?thesis .
    next
      case (Some err)
      then have "snd (fst ?r) = Some err"
        using nw fq vz scan eo occ ol False at
        by (simp add: ValidateImageSecurityPolicy_def imageInWhitelist_def)
      with ok show ?thesis by simp
    qed
    have r: "?r = (case requiredLoop env af img atts (V @ J @ ?B) (RequireAttestationsBy isp) of
                    (res, calls) \<Rightarrow> (res, [CallVulnerabilities img, CallOccurencesV1 img,
                                            CallAttestations img] @ calls))"
      using nw fq vz scan eo occ ol False at aerr V2
      by (simp add: ValidateImageSecurityPolicy_def imageInWhitelist_def)
    from requiredLoop_shape [of env af img atts "V @ J @ ?B" "RequireAttestationsBy isp"]
    show ?thesis
    proof
      assume "\<exists>R calls. requiredLoop env af img atts (V @ J @ ?B) (RequireAttestationsBy isp)
                 = (((V @ J @ ?B) @ R, None), calls)
               \<and> (\<forall>x \<in> set R. vType x = RequiredAttestationViolation)"
      then obtain R calls where R:
        "requiredLoop env af img atts (V @ J @ ?B) (RequireAttestationsBy isp)
           = (((V @ J @ ?B) @ R, None), calls)"
        "\<forall>x \<in> set R. vType x = RequiredAttestationViolation" by blast
      have "fst (fst ?r) = V @ J @ ?B @ R"
        using r R(1) by simp
      then show ?thesis using V s J(2) R(2) noerr
        by (intro exI [of _ J] exI [of _ R]) simp
    next
      assume "\<exists>e calls. requiredLoop env af img atts (V @ J @ ?B) (RequireAttestationsBy isp)
                 = (([], Some e), calls)"
      then obtain e calls where
        "requiredLoop env af img atts (V @ J @ ?B) (RequireAttestationsBy isp) = (([], Some e), calls)"
        by blast
      then have "snd (fst ?r) = Some e" using r by simp
      with ok show ?thesis by simp
    qed
  qed
qed

lemma spec_vulnViolations_about:
  "x \<in> set (spec_vulnViolations sv isp img mx mxNoFix u) \<Longrightarrow>
   vulnerability x = Some u \<and> (vType x = FixUnavailableViolation \<or> vType x = SeverityViolation)"
  by (auto simp add: spec_vulnViolations_def split: if_splits)

lemma Validate_scan_error:
  assumes nw: "img \<notin> set (ImageWhitelist isp)"
    and fq: "FullyQualifiedImage env img"
    and vz: "Vulnerabilities mf img = (pre @ v # post, None)"
    and pre: "\<forall>u \<in> set pre. spec_vulnError (SeverityTable env) isp (maxSev isp) (maxNoFixSev isp) u = None"
    and v: "spec_vulnError (SeverityTable env) isp (maxSev isp) (maxNoFixSev isp) v = Some e"
  shows "ValidateImageSecurityPolicy env isp img mf af =
           ((concat (map (spec_vulnViolations (SeverityTable env) isp img (maxSev isp) (maxNoFixSev isp)) pre),
             Some e), [CallVulnerabilities img])"
  using nw fq vz vulnzLoop_first_error [OF pre v, of img "[]" post]
  by (simp add: ValidateImageSecurityPolicy_def imageInWhitelist_def)

lemma spec_vulnError_invalid_severity:
  assumes "CVE w \<notin> set (WhitelistCVEs isp)"
    and "sv (Severity w) = None"
    and "(if HasFixAvailable w then mx else mxNoFix) \<noteq> BlockAll"
    and "(if HasFixAvailable w then mx else mxNoFix) \<noteq> AllowAll"
  shows "spec_vulnError sv isp mx mxNoFix w \<noteq> None"
  using assms
  by (auto simp add: spec_vulnError_def severityWithinThreshold_def split: option.splits if_splits)

text \<open>
  The scan for an arbitrary table. For an image that is not whitelisted and is fully
  qualified, and a successful fetch of the vulnerability list: when the evaluator returns
  without error, its violations start with the contributions of the vulnerabilities, in
  fetch order; at the first vulnerability whose comparison fails, the evaluator returns
  that error together with the contributions of the vulnerabilities before it; a
  vulnerability that is not whitelisted and whose severity is not a key of the table,
  under a threshold that is not a sentinel, makes the evaluator return an error.
\<close>

lemma vulnerability_scan_any_table:
  assumes nw: "img \<notin> set (ImageWhitelist isp)"
    and fq: "FullyQualifiedImage env img"
    and vz: "Vulnerabilities mf img = (vulnz, None)"
  shows "(snd (fst (ValidateImageSecurityPolicy env isp img mf af)) = None \<longrightarrow>
            (\<exists>rest. fst (fst (ValidateImageSecurityPolicy env isp img mf af)) =
                 concat (map (spec_vulnViolations (SeverityTable env) isp img
                                (maxSev isp) (maxNoFixSev isp)) vulnz) @ rest
               \<and> (\<forall>x \<in> set rest. vType x \<noteq> FixUnavailableViolation
                                     \<and> vType x \<noteq> SeverityViolation)))
       \<and> (vulnz = pre @ v # post \<longrightarrow>
            (\<forall>u \<in> set pre. spec_vulnError (SeverityTable env) isp
                               (maxSev isp) (maxNoFixSev isp) u = None) \<longrightarrow>
            spec_vulnError (SeverityTable env) isp (maxSev isp) (maxNoFixSev isp) v = Some e \<longrightarrow>
            ValidateImageSecurityPolicy env isp img mf af =
              ((concat (map (spec_vulnViolations (SeverityTable env) isp img
                               (maxSev isp) (maxNoFixSev isp)) pre), Some e),
               [CallVulnerabilities img]))
       \<and> (w \<in> set vulnz \<longrightarrow> CVE w \<notin> set (WhitelistCVEs isp) \<longrightarrow>
            SeverityTable env (Severity w) = None \<longrightarrow>
            (if HasFixAvailable w then maxSev isp else maxNoFixSev isp) \<noteq> BlockAll \<longrightarrow>
            (if HasFixAvailable w then maxSev isp else maxNoFixSev isp) \<noteq> AllowAll \<longrightarrow>
            snd (fst (ValidateImageSecurityPolicy env isp img mf af)) \<noteq> None
            \<and> (\<forall>x \<in> set (fst (fst (ValidateImageSecurityPolicy env isp img mf af))).
                  vulnerability x \<noteq> Some w))"
proof (intro conjI impI)
  let ?r = "ValidateImageSecurityPolicy env isp img mf af"
  let ?E = "spec_vulnError (SeverityTable env) isp (maxSev isp) (maxNoFixSev isp)"
  let ?C = "spec_vulnViolations (SeverityTable env) isp img (maxSev isp) (maxNoFixSev isp)"
  {
    assume ok: "snd (fst ?r) = None"
    from Validate_success_shape [OF nw fq vz ok] obtain J R where
      sh: "fst (fst ?r) = concat (map ?C vulnz) @ J
             @ checkBuiltProjectIDs isp img (snd (occsLoop env [] [] (fst (OccurencesV1 mf img)))) []
             @ R"
      and J: "\<forall>x \<in> set J. vType x = ArkCISignatureViolation"
      and R: "\<forall>x \<in> set R. vType x = RequiredAttestationViolation"
      by blast
    let ?rest = "J @ checkBuiltProjectIDs isp img
                       (snd (occsLoop env [] [] (fst (OccurencesV1 mf img)))) [] @ R"
    have "\<forall>x \<in> set ?rest. vType x \<noteq> FixUnavailableViolation \<and> vType x \<noteq> SeverityViolation"
      using J R by (auto simp add: checkBuiltProjectIDs_def NewViolation_def split: if_splits)
    with sh show "\<exists>rest. fst (fst ?r) = concat (map ?C vulnz) @ rest
                   \<and> (\<forall>x \<in> set rest. vType x \<noteq> FixUnavailableViolation
                                         \<and> vType x \<noteq> SeverityViolation)"
      by blast
  }
  {
    assume "vulnz = pre @ v # post" and "\<forall>u \<in> set pre. ?E u = None" and "?E v = Some e"
    then show "?r = ((concat (map ?C pre), Some e), [CallVulnerabilities img])"
      using Validate_scan_error [OF nw fq _ _ _, of mf pre v post e af] vz by simp
  }
  assume w: "w \<in> set vulnz" and nwl: "CVE w \<notin> set (WhitelistCVEs isp)"
    and bad: "SeverityTable env (Severity w) = None"
    and nb: "(if HasFixAvailable w then maxSev isp else maxNoFixSev isp) \<noteq> BlockAll"
    and na: "(if HasFixAvailable w then maxSev isp else maxNoFixSev isp) \<noteq> AllowAll"
  have Ew: "?E w \<noteq> None"
    using spec_vulnError_invalid_severity
            [of w isp "SeverityTable env" "maxSev isp" "maxNoFixSev isp"] nwl bad nb na
    by simp
  let ?P = "\<lambda>u. ?E u = None"
  have ne: "dropWhile ?P vulnz \<noteq> []"
    using w Ew by auto
  then obtain v' post' where dw: "dropWhile ?P vulnz = v' # post'"
    by (cases "dropWhile ?P vulnz") auto
  have split: "vulnz = takeWhile ?P vulnz @ v' # post'"
    using takeWhile_dropWhile_id [of ?P vulnz] dw by simp
  have pre': "\<forall>u \<in> set (takeWhile ?P vulnz). ?E u = None"
    using set_takeWhileD by fastforce
  have "\<not> ?P v'"
    using hd_dropWhile [OF ne] dw by simp
  then obtain e' where e': "?E v' = Some e'" by auto
  have vz': "Vulnerabilities mf img = (takeWhile ?P vulnz @ v' # post', None)"
    using vz split by simp
  have r: "?r = ((concat (map ?C (takeWhile ?P vulnz)), Some e'), [CallVulnerabilities img])"
    by (rule Validate_scan_error [OF nw fq vz' pre' e'])
  show "snd (fst ?r) \<noteq> None"
    using r by simp
  show "\<forall>x \<in> set (fst (fst ?r)). vulnerability x \<noteq> Some w"
  proof
    fix x assume "x \<in> set (fst (fst ?r))"
    then obtain u where u: "u \<in> set (takeWhile ?P vulnz)" "x \<in> set (?C u)"
      using r by auto
    have "vulnerability x = Some u"
      using spec_vulnViolations_about [OF u(2)] by simp
    moreover have "u \<noteq> w"
      using pre' u(1) Ew by auto
    ultimately show "vulnerability x \<noteq> Some w" by simp
  qed
qed

text \<open>
  Claim C3 as stated says that a vulnerability whose severity is not a lattice level, under
  a threshold that is not a sentinel, makes the evaluator return an error. On the sample
  policy (threshold MEDIUM, CVE-1 whitelisted) the backend reports CVE-1 with the severity
  BOGUS and CVE-7 with the severity \<open>SEVERITY_UNSPECIFIED\<close>. Neither severity is a lattice
  level. The first vulnerability is skipped by the whitelist test before its severity is
  looked at; the second has a key of the program's table that ranks below every level. The
  evaluator returns no violation and no error.
\<close>

theorem whitelisted_or_unspecified_raises_no_error:
  "exampleImage \<notin> set (ImageWhitelist exampleISP)
   \<and> FullyQualifiedImage exampleEnv exampleImage
   \<and> Vulnerabilities exampleUnspecifiedFetcher exampleImage =
       ([\<lparr>CVE = ''CVE-1'', Severity = ''BOGUS'', HasFixAvailable = True\<rparr>,
         \<lparr>CVE = ''CVE-7'', Severity = ''SEVERITY_UNSPECIFIED'', HasFixAvailable = True\<rparr>], None)
   \<and> SeverityTable exampleEnv = Severity_value
   \<and> WhitelistCVEs exampleISP = [''CVE-1'']
   \<and> maxSev exampleISP = ''MEDIUM''
   \<and> ''MEDIUM'' \<noteq> BlockAll \<and> ''MEDIUM'' \<noteq> AllowAll
   \<and> spec_latticeRank ''BOGUS'' = None
   \<and> spec_latticeRank ''SEVERITY_UNSPECIFIED'' = None
   \<and> ValidateImageSecurityPolicy exampleEnv exampleISP exampleImage
        exampleUnspecifiedFetcher exampleAttestors =
        (([], None), [CallVulnerabilities exampleImage, CallOccurencesV1 exampleImage])"
  by (simp add: example_defs example_attest_defs example_revision_defs evaluator_defs)

lemma spec_vuln_unspecified:
  assumes "Severity u = ''SEVERITY_UNSPECIFIED''"
    and "spec_latticeRank (if HasFixAvailable u then mx else mxNoFix) = Some rk"
  shows "spec_vulnError Severity_value isp mx mxNoFix u = None
         \<and> spec_vulnViolations Severity_value isp img mx mxNoFix u = []"
proof -
  have "severityWithinThreshold Severity_value (if HasFixAvailable u then mx else mxNoFix)
          ''SEVERITY_UNSPECIFIED'' = (True, None)"
    using assms(2) spec_latticeRank_not_sentinel [OF assms(2)]
    by (simp add: severityWithinThreshold_def Severity_value_def)
  then show ?thesis
    using assms(1)
    by (cases "HasFixAvailable u") (simp_all add: spec_vulnError_def spec_vulnViolations_def)
qed

text \<open>
  Claim C3, amended. For an image that is not whitelisted and is fully qualified, and a
  successful fetch of the vulnerability list, the scan handles the vulnerabilities in list
  order, each as \<open>spec_vulnViolations\<close> and \<open>spec_vulnError\<close> say: a whitelisted CVE
  contributes nothing (it is skipped before any comparison); a vulnerability without a fix
  is compared against \<open>maximumFixUnavailableSeverity\<close> and contributes nothing within the
  threshold and one Fix-Unavailable violation beyond it; a vulnerability with a fix is
  compared against \<open>maximumSeverity\<close> and contributes nothing or one Severity violation.
  \<^item> When the evaluator returns without error, its violations start with the
    contributions of the vulnerabilities, in fetch order, and no later violation has one
    of the two vulnerability kinds.
  \<^item> At the first vulnerability whose comparison fails, the evaluator returns that
    error together with the contributions of the vulnerabilities before it, having
    called nothing but \<open>Vulnerabilities\<close>.
  \<^item> On the table of the program, a vulnerability whose CVE is not whitelisted and
    whose severity is neither a lattice level nor \<open>SEVERITY_UNSPECIFIED\<close>, under a
    threshold that is not a sentinel, makes the evaluator return an error, and no
    returned violation is about that vulnerability.
  \<^item> On the table of the program, a vulnerability with the severity
    \<open>SEVERITY_UNSPECIFIED\<close> raises no error and contributes nothing under a threshold
    that is a lattice level.
\<close>

theorem vulnerability_scan_program_table:
  assumes nw: "img \<notin> set (ImageWhitelist isp)"
    and fq: "FullyQualifiedImage env img"
    and vz: "Vulnerabilities mf img = (vulnz, None)"
  shows "(snd (fst (ValidateImageSecurityPolicy env isp img mf af)) = None \<longrightarrow>
            (\<exists>rest. fst (fst (ValidateImageSecurityPolicy env isp img mf af)) =
                 concat (map (spec_vulnViolations (SeverityTable env) isp img
                                (maxSev isp) (maxNoFixSev isp)) vulnz) @ rest
               \<and> (\<forall>x \<in> set rest. vType x \<noteq> FixUnavailableViolation
                                     \<and> vType x \<noteq> SeverityViolation)))
       \<and> (vulnz = pre @ v # post \<longrightarrow>
            (\<forall>u \<in> set pre. spec_vulnError (SeverityTable env) isp
                               (maxSev isp) (maxNoFixSev isp) u = None) \<longrightarrow>
            spec_vulnError (SeverityTable env) isp (maxSev isp) (maxNoFixSev isp) v = Some e \<longrightarrow>
            ValidateImageSecurityPolicy env isp img mf af =
              ((concat (map (spec_vulnViolations (SeverityTable env) isp img
                               (maxSev isp) (maxNoFixSev isp)) pre), Some e),
               [CallVulnerabilities img]))
       \<and> (w \<in> set vulnz \<longrightarrow> CVE w \<notin> set (WhitelistCVEs isp) \<longrightarrow>
            SeverityTable env = Severity_value \<longrightarrow>
            spec_latticeRank (Severity w) = None \<longrightarrow>
            Severity w \<noteq> ''SEVERITY_UNSPECIFIED'' \<longrightarrow>
            (if HasFixAvailable w then maxSev isp else maxNoFixSev isp) \<noteq> BlockAll \<longrightarrow>
            (if HasFixAvailable w then maxSev isp else maxNoFixSev isp) \<noteq> AllowAll \<longrightarrow>
            snd (fst (ValidateImageSecurityPolicy env isp img mf af)) \<noteq> None
            \<and> (\<forall>x \<in> set (fst (fst (ValidateImageSecurityPolicy env isp img mf af))).
                  vulnerability x \<noteq> Some w))
       \<and> (SeverityTable env = Severity_value \<longrightarrow>
            Severity s = ''SEVERITY_UNSPECIFIED'' \<longrightarrow>
            spec_latticeRank (if HasFixAvailable s then maxSev isp else maxNoFixSev isp)
              = Some rk \<longrightarrow>
            spec_vulnError (SeverityTable env) isp (maxSev isp) (maxNoFixSev isp) s = None
            \<and> spec_vulnViolations (SeverityTable env) isp img
                 (maxSev isp) (maxNoFixSev isp) s = [])"
proof -
  note any = vulnerability_scan_any_table [OF nw fq vz, of af pre v post e w]
  have third: "snd (fst (ValidateImageSecurityPolicy env isp img mf af)) \<noteq> None
            \<and> (\<forall>x \<in> set (fst (fst (ValidateImageSecurityPolicy env isp img mf af))).
                  vulnerability x \<noteq> Some w)"
    if "w \<in> set vulnz" "CVE w \<notin> set (WhitelistCVEs isp)"
      "SeverityTable env = Severity_value"
      "spec_latticeRank (Severity w) = None" "Severity w \<noteq> ''SEVERITY_UNSPECIFIED''"
      "(if HasFixAvailable w then maxSev isp else maxNoFixSev isp) \<noteq> BlockAll"
      "(if HasFixAvailable w then maxSev isp else maxNoFixSev isp) \<noteq> AllowAll"
  proof -
    have "SeverityTable env (Severity w) = None"
      using that(3,4,5) by (simp add: Severity_value_None_iff)
    then show ?thesis
      using any that(1,2,6,7) by blast
  qed
  have fourth: "spec_vulnError (SeverityTable env) isp (maxSev isp) (maxNoFixSev isp) s = None
            \<and> spec_vulnViolations (SeverityTable env) isp img
                 (maxSev isp) (maxNoFixSev isp) s = []"
    if "SeverityTable env = Severity_value" "Severity s = ''SEVERITY_UNSPECIFIED''"
      "spec_latticeRank (if HasFixAvailable s then maxSev isp else maxNoFixSev isp) = Some rk"
    using spec_vuln_unspecified [OF that(2,3), of isp img] that(1) by simp
  show ?thesis
    using any third fourth by blast
qed

theorem vulnerability_scan_program_table_witness:
  "exampleImage \<notin> set (ImageWhitelist exampleISP)
   \<and> FullyQualifiedImage exampleEnv exampleImage
   \<and> Vulnerabilities exampleFetcher exampleImage = (exampleVulnz, None)
   \<and> snd (fst (ValidateImageSecurityPolicy exampleEnv exampleISP exampleImage
                 exampleFetcher exampleAttestors)) = None
   \<and> (\<exists>rest. fst (fst (ValidateImageSecurityPolicy exampleEnv exampleISP exampleImage
                          exampleFetcher exampleAttestors)) =
         [\<lparr>vulnerability = Some \<lparr>CVE = ''CVE-2'', Severity = ''HIGH'', HasFixAvailable = True\<rparr>,
           vType = SeverityViolation,
           reason = SeverityReason exampleImage
                      \<lparr>CVE = ''CVE-2'', Severity = ''HIGH'', HasFixAvailable = True\<rparr> exampleISP\<rparr>,
          \<lparr>vulnerability = Some \<lparr>CVE = ''CVE-4'', Severity = ''CRITICAL'', HasFixAvailable = False\<rparr>,
           vType = FixUnavailableViolation,
           reason = FixUnavailableReason exampleImage
                      \<lparr>CVE = ''CVE-4'', Severity = ''CRITICAL'', HasFixAvailable = False\<rparr>
                      exampleISP\<rparr>] @ rest
         \<and> (\<forall>x \<in> set rest. vType x \<noteq> FixUnavailableViolation \<and> vType x \<noteq> SeverityViolation))
   \<and> Vulnerabilities exampleBadFetcher exampleImage = (exampleBadVulnz, None)
   \<and> ValidateImageSecurityPolicy exampleEnv exampleISP exampleImage
        exampleBadFetcher exampleAttestors =
        (([\<lparr>vulnerability = Some \<lparr>CVE = ''CVE-2'', Severity = ''HIGH'', HasFixAvailable = True\<rparr>,
            vType = SeverityViolation,
            reason = SeverityReason exampleImage
                       \<lparr>CVE = ''CVE-2'', Severity = ''HIGH'', HasFixAvailable = True\<rparr> exampleISP\<rparr>],
          Some (InvalidSeverityLevel ''BOGUS'')), [CallVulnerabilities exampleImage])
   \<and> SeverityTable exampleEnv = Severity_value
   \<and> ''CVE-6'' \<notin> set (WhitelistCVEs exampleISP)
   \<and> spec_latticeRank ''BOGUS'' = None
   \<and> maxSev exampleISP \<noteq> BlockAll \<and> maxSev exampleISP \<noteq> AllowAll
   \<and> spec_latticeRank (maxSev exampleISP) = Some 3
   \<and> spec_vulnError (SeverityTable exampleEnv) exampleISP (maxSev exampleISP)
        (maxNoFixSev exampleISP)
        \<lparr>CVE = ''CVE-7'', Severity = ''SEVERITY_UNSPECIFIED'', HasFixAvailable = True\<rparr> = None"
proof -
  let ?v2 = "\<lparr>CVE = ''CVE-2'', Severity = ''HIGH'', HasFixAvailable = True\<rparr>"
  let ?v6 = "\<lparr>CVE = ''CVE-6'', Severity = ''BOGUS'', HasFixAvailable = True\<rparr>"
  let ?v5 = "\<lparr>CVE = ''CVE-5'', Severity = ''LOW'', HasFixAvailable = True\<rparr>"
  let ?sv = "SeverityTable exampleEnv"
  have h1: "exampleImage \<notin> set (ImageWhitelist exampleISP)"
    by (simp add: example_defs)
  have h2: "FullyQualifiedImage exampleEnv exampleImage"
    by (simp add: example_defs)
  have h3: "Vulnerabilities exampleFetcher exampleImage = (exampleVulnz, None)"
    by (simp add: example_defs)
  have h4: "Vulnerabilities exampleBadFetcher exampleImage = (exampleBadVulnz, None)"
    by (simp add: example_defs)
  have ok: "snd (fst (ValidateImageSecurityPolicy exampleEnv exampleISP exampleImage
                  exampleFetcher exampleAttestors)) = None"
    by (simp add: example_defs evaluator_defs)
  have sp: "exampleBadVulnz = [?v2] @ ?v6 # [?v5]"
    by (simp add: exampleBadVulnz_def)
  have pre: "\<forall>u \<in> set [?v2]. spec_vulnError ?sv exampleISP
                 (maxSev exampleISP) (maxNoFixSev exampleISP) u = None"
    by (simp add: spec_vulnError_def example_defs evaluator_defs)
  have bad: "spec_vulnError ?sv exampleISP (maxSev exampleISP) (maxNoFixSev exampleISP) ?v6
               = Some (InvalidSeverityLevel ''BOGUS'')"
    by (simp add: spec_vulnError_def example_defs evaluator_defs)
  have c1: "concat (map (spec_vulnViolations ?sv exampleISP exampleImage
                          (maxSev exampleISP) (maxNoFixSev exampleISP)) exampleVulnz) =
         [\<lparr>vulnerability = Some ?v2, vType = SeverityViolation,
           reason = SeverityReason exampleImage ?v2 exampleISP\<rparr>,
          \<lparr>vulnerability = Some \<lparr>CVE = ''CVE-4'', Severity = ''CRITICAL'', HasFixAvailable = False\<rparr>,
           vType = FixUnavailableViolation,
           reason = FixUnavailableReason exampleImage
                      \<lparr>CVE = ''CVE-4'', Severity = ''CRITICAL'', HasFixAvailable = False\<rparr>
                      exampleISP\<rparr>]"
    by (simp add: spec_vulnViolations_def exampleVulnz_def exampleISP_def exampleEnv_def
          evaluator_defs)
  have c2: "concat (map (spec_vulnViolations ?sv exampleISP exampleImage
                          (maxSev exampleISP) (maxNoFixSev exampleISP)) [?v2]) =
         [\<lparr>vulnerability = Some ?v2, vType = SeverityViolation,
           reason = SeverityReason exampleImage ?v2 exampleISP\<rparr>]"
    by (simp add: spec_vulnViolations_def exampleISP_def exampleEnv_def evaluator_defs)
  note good = vulnerability_scan_program_table
                 [OF h1 h2 h3, of exampleAttestors "[]" ?v2 "[]" "Err []" ?v2 ?v2 0]
  note abort = vulnerability_scan_program_table
                 [OF h1 h2 h4, of exampleAttestors "[?v2]" ?v6 "[?v5]"
                    "InvalidSeverityLevel ''BOGUS''" ?v6 ?v2 0]
  let ?v7 = "\<lparr>CVE = ''CVE-7'', Severity = ''SEVERITY_UNSPECIFIED'', HasFixAvailable = True\<rparr>"
  have t: "SeverityTable exampleEnv = Severity_value"
    and n6: "''CVE-6'' \<notin> set (WhitelistCVEs exampleISP)"
    and b: "spec_latticeRank ''BOGUS'' = None"
    and m: "maxSev exampleISP \<noteq> BlockAll" "maxSev exampleISP \<noteq> AllowAll"
      "spec_latticeRank (maxSev exampleISP) = Some 3"
    by (simp_all add: example_defs evaluator_defs)
  note unspecified = vulnerability_scan_program_table
                 [OF h1 h2 h4, of exampleAttestors "[?v2]" ?v6 "[?v5]"
                    "InvalidSeverityLevel ''BOGUS''" ?v6 ?v7 3]
  have u: "spec_vulnError (SeverityTable exampleEnv) exampleISP (maxSev exampleISP)
             (maxNoFixSev exampleISP) ?v7 = None"
    using unspecified t m by simp
  show ?thesis
    using h1 h2 h3 h4 ok good abort sp pre bad c1 c2 t n6 b m u
    by simp
qed

section \<open>Errors of the metadata backend\<close>

text \<open>
  An error of \<open>Vulnerabilities\<close> or of \<open>Attestations\<close> ends the evaluation and is
  returned to the caller.
\<close>

lemma Vulnerabilities_error_surfaced:
  assumes "img \<notin> set (ImageWhitelist isp)" and "FullyQualifiedImage env img"
    and "Vulnerabilities mf img = (vulnz, Some err)"
  shows "ValidateImageSecurityPolicy env isp img mf af = (([], Some err), [CallVulnerabilities img])"
  using assms by (simp add: ValidateImageSecurityPolicy_def imageInWhitelist_def)

lemma Attestations_error_surfaced:
  assumes "img \<notin> set (ImageWhitelist isp)" and "FullyQualifiedImage env img"
    and "Vulnerabilities mf img = (vulnz, None)"
    and "\<forall>v \<in> set vulnz. spec_vulnError (SeverityTable env) isp (maxSev isp) (maxNoFixSev isp) v = None"
    and "RequireAttestationsBy isp \<noteq> []"
    and "Attestations mf img = (atts, Some err)"
  shows "ValidateImageSecurityPolicy env isp img mf af =
           (([], Some err),
            [CallVulnerabilities img, CallOccurencesV1 img, CallAttestations img])"
  using assms(1,2,3,5,6) vulnzLoop_no_error [OF assms(4), of img "[]"]
  by (simp add: ValidateImageSecurityPolicy_def imageInWhitelist_def Let_def split: prod.splits)

text \<open>
  The error of \<open>OccurencesV1\<close> is different: whatever it is, the evaluator returns what
  it returns when the call succeeds with the same list.
\<close>

lemma OccurencesV1_error_never_read:
  "ValidateImageSecurityPolicy env isp img
     (mf\<lparr>OccurencesV1 := (\<lambda>i. (fst (OccurencesV1 mf i), e))\<rparr>) af =
   ValidateImageSecurityPolicy env isp img mf af"
  by (cases "OccurencesV1 mf img")
     (auto simp add: ValidateImageSecurityPolicy_def Let_def split: prod.splits option.splits)

text \<open>
  Claim C5 says that every error of a backend call is returned to the caller, that of
  \<open>OccurencesV1\<close> in particular. On the sample backend whose occurrence listing fails,
  the evaluator goes on after the failed call and returns no violation and a nil error.
\<close>

theorem occurrences_error_not_surfaced:
  "OccurencesV1 exampleOccFailFetcher exampleImage = ([], Some (Err ''backend unavailable''))
   \<and> ValidateImageSecurityPolicy exampleEnv exampleISP exampleImage
        exampleOccFailFetcher exampleAttestors =
        (([], None), [CallVulnerabilities exampleImage, CallOccurencesV1 exampleImage])"
  by (simp add: example_defs evaluator_defs)

section \<open>Required attestations\<close>


lemma hasRequiredAttestation_payload_error:
  "NewAtomicContainerSig env img = Inl err \<Longrightarrow>
   hasRequiredAttestation env img attestor atts =
     (False, Some (FailedToInitializeAttestationSignature img err))"
  by (simp add: hasRequiredAttestation_def)




lemma Validate_reaches_required:
  assumes nw: "img \<notin> set (ImageWhitelist isp)"
    and fq: "FullyQualifiedImage env img"
    and vz: "Vulnerabilities mf img = (vulnz, None)"
    and noerr: "\<forall>v \<in> set vulnz. spec_vulnError (SeverityTable env) isp
                                    (maxSev isp) (maxNoFixSev isp) v = None"
    and ne: "RequireAttestationsBy isp \<noteq> []"
    and at: "Attestations mf img = (atts, None)"
  shows "\<exists>before. (\<forall>x \<in> set before. vType x \<noteq> RequiredAttestationViolation)
           \<and> ValidateImageSecurityPolicy env isp img mf af =
               (case requiredLoop env af img atts before (RequireAttestationsBy isp) of
                  (res, calls) \<Rightarrow>
                    (res, [CallVulnerabilities img, CallOccurencesV1 img,
                           CallAttestations img] @ calls))"
proof -
  let ?V = "concat (map (spec_vulnViolations (SeverityTable env) isp img
                           (maxSev isp) (maxNoFixSev isp)) vulnz)"
  have scan: "vulnzLoop (SeverityTable env) isp img (maxSev isp) (maxNoFixSev isp) [] vulnz
                = (?V, None)"
    using vulnzLoop_no_error [OF noerr, of img "[]"] by simp
  obtain occs oerr where occ: "OccurencesV1 mf img = (occs, oerr)"
    by (cases "OccurencesV1 mf img")
  obtain V1 s where ol: "occsLoop env ?V [] occs = (V1, s)"
    by (cases "occsLoop env ?V [] occs")
  obtain J where J: "V1 = ?V @ J" "\<forall>x \<in> set J. vType x = ArkCISignatureViolation"
    using occsLoop_shape [of env ?V "[]" occs] ol by auto
  let ?before = "checkBuiltProjectIDs isp img s V1"
  have V: "\<forall>x \<in> set ?V. vType x \<noteq> RequiredAttestationViolation"
    using spec_vulnViolations_about by fastforce
  have "\<forall>x \<in> set ?before. vType x \<noteq> RequiredAttestationViolation"
    using V J by (auto simp add: checkBuiltProjectIDs_def NewViolation_def split: if_splits)
  moreover have "ValidateImageSecurityPolicy env isp img mf af =
               (case requiredLoop env af img atts ?before (RequireAttestationsBy isp) of
                  (res, calls) \<Rightarrow>
                    (res, [CallVulnerabilities img, CallOccurencesV1 img,
                           CallAttestations img] @ calls))"
    using nw fq vz scan occ ol ne at
    by (simp add: ValidateImageSecurityPolicy_def imageInWhitelist_def)
  ultimately show ?thesis by blast
qed






section \<open>The builder check\<close>

lemma HasPrefix_iff: "HasPrefix s p \<longleftrightarrow> (\<exists>rest. s = p @ rest)"
proof
  assume "HasPrefix s p"
  then have "s = p @ drop (length p) s"
    unfolding HasPrefix_def by (metis append_take_drop_id)
  then show "\<exists>rest. s = p @ rest" ..
next
  assume "\<exists>rest. s = p @ rest"
  then show "HasPrefix s p"
    unfolding HasPrefix_def by auto
qed

lemma imageInGCR_iff:
  "imageInGCR projectID img \<longleftrightarrow>
     (\<exists>zone \<in> {[], ''asia'', ''eu'', ''us''}.
        \<exists>rest. img = (if zone = [] then ''gcr.io'' else zone @ ''.gcr.io'')
                        @ ''/'' @ projectID @ ''/'' @ rest)"
  by (simp add: imageInGCR_def HasPrefix_iff)

lemma hasBuildProjectID_iff:
  "hasBuildProjectID signedProjectID img ids \<longleftrightarrow>
     (\<exists>E \<in> set ids. E = signedProjectID \<or> imageInGCR E img)"
  by (induction ids) auto

lemma Validate_error_violations:
  assumes err: "snd (fst (ValidateImageSecurityPolicy env isp img mf af)) \<noteq> None"
  shows "\<forall>x \<in> set (fst (fst (ValidateImageSecurityPolicy env isp img mf af))).
           vType x = FixUnavailableViolation \<or> vType x = SeverityViolation"
proof -
  let ?r = "ValidateImageSecurityPolicy env isp img mf af"
  let ?sv = "SeverityTable env"
  have nw: "img \<notin> set (ImageWhitelist isp)"
  proof
    assume "img \<in> set (ImageWhitelist isp)"
    then have "snd (fst ?r) = None"
      by (simp add: ValidateImageSecurityPolicy_def imageInWhitelist_def)
    with err show False by simp
  qed
  have fq: "FullyQualifiedImage env img"
  proof (rule ccontr)
    assume "\<not> FullyQualifiedImage env img"
    then have "snd (fst ?r) = None"
      using nw by (simp add: ValidateImageSecurityPolicy_def imageInWhitelist_def)
    with err show False by simp
  qed
  obtain vulnz ve where vz: "Vulnerabilities mf img = (vulnz, ve)"
    by (cases "Vulnerabilities mf img")
  show ?thesis
  proof (cases ve)
    case (Some e)
    then show ?thesis
      using nw fq vz by (simp add: ValidateImageSecurityPolicy_def imageInWhitelist_def)
  next
    case None
    obtain V eo where scan:
      "vulnzLoop ?sv isp img (maxSev isp) (maxNoFixSev isp) [] vulnz = (V, eo)"
      by (cases "vulnzLoop ?sv isp img (maxSev isp) (maxNoFixSev isp) [] vulnz")
    have V: "\<forall>x \<in> set V. vType x = FixUnavailableViolation \<or> vType x = SeverityViolation"
      using scan spec_vulnViolations_about
      by (fastforce simp add: vulnzLoop_closed_form)
    show ?thesis
    proof (cases eo)
      case (Some e)
      then have "fst (fst ?r) = V"
        using nw fq vz None scan
        by (simp add: ValidateImageSecurityPolicy_def imageInWhitelist_def)
      with V show ?thesis by simp
    next
      case eoNone: None
      obtain occs oerr where occ: "OccurencesV1 mf img = (occs, oerr)"
        by (cases "OccurencesV1 mf img")
      obtain V1 s where ol: "occsLoop env V [] occs = (V1, s)"
        by (cases "occsLoop env V [] occs")
      show ?thesis
      proof (cases "RequireAttestationsBy isp = []")
        case True
        then have "snd (fst ?r) = None"
          using nw fq vz None scan eoNone occ ol
          by (simp add: ValidateImageSecurityPolicy_def imageInWhitelist_def)
        with err show ?thesis by simp
      next
        case False
        obtain atts aerr where at: "Attestations mf img = (atts, aerr)"
          by (cases "Attestations mf img")
        show ?thesis
        proof (cases aerr)
          case (Some e)
          then have "fst (fst ?r) = []"
            using nw fq vz None scan eoNone occ ol False at
            by (simp add: ValidateImageSecurityPolicy_def imageInWhitelist_def)
          then show ?thesis by simp
        next
          case aNone: None
          let ?before = "checkBuiltProjectIDs isp img s V1"
          have r: "?r = (case requiredLoop env af img atts ?before (RequireAttestationsBy isp) of
                    (res, calls) \<Rightarrow> (res, [CallVulnerabilities img, CallOccurencesV1 img,
                                            CallAttestations img] @ calls))"
            using nw fq vz None scan eoNone occ ol False at aNone
            by (simp add: ValidateImageSecurityPolicy_def imageInWhitelist_def)
          from requiredLoop_shape [of env af img atts ?before "RequireAttestationsBy isp"]
          show ?thesis
          proof
            assume "\<exists>R calls. requiredLoop env af img atts ?before (RequireAttestationsBy isp)
                       = ((?before @ R, None), calls)
                     \<and> (\<forall>x \<in> set R. vType x = RequiredAttestationViolation)"
            then have "snd (fst ?r) = None" using r by auto
            with err show ?thesis by simp
          next
            assume "\<exists>e calls. requiredLoop env af img atts ?before (RequireAttestationsBy isp)
                       = (([], Some e), calls)"
            then have "fst (fst ?r) = []" using r by auto
            then show ?thesis by simp
          qed
        qed
      qed
    qed
  qed
qed

lemma checkBuiltProjectIDs_kind:
  "\<forall>x \<in> set (checkBuiltProjectIDs isp img s []). vType x = BuildProjectIDViolation"
  by (simp add: checkBuiltProjectIDs_def NewViolation_def)

lemma Validate_builder_violations:
  "filter (\<lambda>x. vType x = BuildProjectIDViolation)
     (fst (fst (ValidateImageSecurityPolicy env isp img mf af))) =
   (if img \<notin> set (ImageWhitelist isp) \<and> FullyQualifiedImage env img
       \<and> snd (fst (ValidateImageSecurityPolicy env isp img mf af)) = None
    then checkBuiltProjectIDs isp img (snd (occsLoop env [] [] (fst (OccurencesV1 mf img)))) []
    else [])"
proof -
  let ?r = "ValidateImageSecurityPolicy env isp img mf af"
  let ?B = "checkBuiltProjectIDs isp img (snd (occsLoop env [] [] (fst (OccurencesV1 mf img)))) []"
  let ?isB = "\<lambda>x. vType x = BuildProjectIDViolation"
  show ?thesis
  proof (cases "img \<notin> set (ImageWhitelist isp) \<and> FullyQualifiedImage env img
                 \<and> snd (fst ?r) = None")
    case True
    then have nw: "img \<notin> set (ImageWhitelist isp)" and fq: "FullyQualifiedImage env img"
      and ok: "snd (fst ?r) = None" by simp_all
    obtain vulnz ve where vz0: "Vulnerabilities mf img = (vulnz, ve)"
      by (cases "Vulnerabilities mf img")
    have "ve = None"
      using ok nw fq vz0
      by (cases ve) (simp_all add: ValidateImageSecurityPolicy_def imageInWhitelist_def)
    then have vz: "Vulnerabilities mf img = (vulnz, None)" using vz0 by simp
    from Validate_success_shape [OF nw fq vz ok] obtain J R where
      sh: "fst (fst ?r) = concat (map (spec_vulnViolations (SeverityTable env) isp img
                                        (maxSev isp) (maxNoFixSev isp)) vulnz) @ J @ ?B @ R"
      and J: "\<forall>x \<in> set J. vType x = ArkCISignatureViolation"
      and R: "\<forall>x \<in> set R. vType x = RequiredAttestationViolation"
      by blast
    have V: "filter ?isB (concat (map (spec_vulnViolations (SeverityTable env) isp img
                                        (maxSev isp) (maxNoFixSev isp)) vulnz)) = []"
      using spec_vulnViolations_about by (fastforce simp add: filter_empty_conv)
    have J': "filter ?isB J = []" using J by (simp add: filter_empty_conv)
    have R': "filter ?isB R = []" using R by (simp add: filter_empty_conv)
    have B': "filter ?isB ?B = ?B"
      using checkBuiltProjectIDs_kind [of isp img] by (simp add: filter_id_conv)
    show ?thesis using True sh V J' R' B' by simp
  next
    case outside: False
    have none: "filter ?isB (fst (fst ?r)) = []"
    proof (cases "snd (fst ?r) = None")
      case True
      with outside have "img \<in> set (ImageWhitelist isp) \<or> \<not> FullyQualifiedImage env img"
        by blast
      then show ?thesis
        by (auto simp add: ValidateImageSecurityPolicy_def imageInWhitelist_def)
    next
      case False
      from Validate_error_violations [OF this] show ?thesis
        by (auto simp add: filter_empty_conv)
    qed
    show ?thesis
      unfolding if_not_P [OF outside] by (rule none)
  qed
qed

text \<open>
  Claim C7. Among the violations the evaluator returns, for any policy, image and backend:
  \<^item> there is at most one Built-Project-ID violation;
  \<^item> there is none when \<open>builtProjectIDs\<close> is empty;
  \<^item> when \<open>builtProjectIDs\<close> is not empty and the evaluation of a non-whitelisted, fully
    qualified image ends without error, there is exactly the one Built-Project-ID violation
    if no entry equals the signed project id (the value the occurrence loop derives from
    the JWTs, the empty string when there is none) and no entry passes \<open>imageInGCR\<close>, and
    there is none otherwise;
  \<^item> \<open>imageInGCR\<close> holds of a project and an image exactly when the image starts with
    \<open>host/project/\<close>, the host being \<open>gcr.io\<close> for the empty zone and \<open>zone.gcr.io\<close> for
    the zones asia, eu and us;
  \<^item> the check itself, on any list of violations and any signed project id, appends that
    one violation exactly when \<open>builtProjectIDs\<close> is not empty and no entry equals the
    signed project id or passes \<open>imageInGCR\<close>, and appends nothing otherwise.
\<close>

theorem built_project_check:
  "length (filter (\<lambda>x. vType x = BuildProjectIDViolation)
             (fst (fst (ValidateImageSecurityPolicy env isp img mf af)))) \<le> 1
   \<and> (BuiltProjectIDs isp = [] \<longrightarrow>
        filter (\<lambda>x. vType x = BuildProjectIDViolation)
          (fst (fst (ValidateImageSecurityPolicy env isp img mf af))) = [])
   \<and> (BuiltProjectIDs isp \<noteq> [] \<longrightarrow> img \<notin> set (ImageWhitelist isp) \<longrightarrow>
        FullyQualifiedImage env img \<longrightarrow>
        snd (fst (ValidateImageSecurityPolicy env isp img mf af)) = None \<longrightarrow>
        filter (\<lambda>x. vType x = BuildProjectIDViolation)
          (fst (fst (ValidateImageSecurityPolicy env isp img mf af))) =
        (if \<exists>E \<in> set (BuiltProjectIDs isp).
              E = snd (occsLoop env [] [] (fst (OccurencesV1 mf img))) \<or> imageInGCR E img
         then []
         else [NewViolation None BuildProjectIDViolation
                 (BuildProjectIDReason img (BuiltProjectIDs isp))]))
   \<and> (imageInGCR projectID img \<longleftrightarrow>
        (\<exists>zone \<in> {[], ''asia'', ''eu'', ''us''}.
           \<exists>rest. img = (if zone = [] then ''gcr.io'' else zone @ ''.gcr.io'')
                           @ ''/'' @ projectID @ ''/'' @ rest))
   \<and> checkBuiltProjectIDs isp img signedProjectID violations =
       violations @
       (if BuiltProjectIDs isp \<noteq> []
           \<and> \<not> (\<exists>E \<in> set (BuiltProjectIDs isp). E = signedProjectID \<or> imageInGCR E img)
        then [NewViolation None BuildProjectIDViolation
                (BuildProjectIDReason img (BuiltProjectIDs isp))]
        else [])"
proof (intro conjI impI)
  show "length (filter (\<lambda>x. vType x = BuildProjectIDViolation)
             (fst (fst (ValidateImageSecurityPolicy env isp img mf af)))) \<le> 1"
    by (simp add: Validate_builder_violations checkBuiltProjectIDs_def)
  show "filter (\<lambda>x. vType x = BuildProjectIDViolation)
          (fst (fst (ValidateImageSecurityPolicy env isp img mf af))) = []"
    if "BuiltProjectIDs isp = []"
    using that by (simp add: Validate_builder_violations checkBuiltProjectIDs_def)
  show "filter (\<lambda>x. vType x = BuildProjectIDViolation)
          (fst (fst (ValidateImageSecurityPolicy env isp img mf af))) =
        (if \<exists>E \<in> set (BuiltProjectIDs isp).
              E = snd (occsLoop env [] [] (fst (OccurencesV1 mf img))) \<or> imageInGCR E img
         then []
         else [NewViolation None BuildProjectIDViolation
                 (BuildProjectIDReason img (BuiltProjectIDs isp))])"
    if "BuiltProjectIDs isp \<noteq> []" "img \<notin> set (ImageWhitelist isp)"
      "FullyQualifiedImage env img"
      "snd (fst (ValidateImageSecurityPolicy env isp img mf af)) = None"
    using that
    by (simp add: Validate_builder_violations checkBuiltProjectIDs_def hasBuildProjectID_iff)
  show "imageInGCR projectID img \<longleftrightarrow>
        (\<exists>zone \<in> {[], ''asia'', ''eu'', ''us''}.
           \<exists>rest. img = (if zone = [] then ''gcr.io'' else zone @ ''.gcr.io'')
                           @ ''/'' @ projectID @ ''/'' @ rest)"
    by (rule imageInGCR_iff)
  show "checkBuiltProjectIDs isp img signedProjectID violations =
       violations @
       (if BuiltProjectIDs isp \<noteq> []
           \<and> \<not> (\<exists>E \<in> set (BuiltProjectIDs isp). E = signedProjectID \<or> imageInGCR E img)
        then [NewViolation None BuildProjectIDViolation
                (BuildProjectIDReason img (BuiltProjectIDs isp))]
        else [])"
    by (simp add: checkBuiltProjectIDs_def hasBuildProjectID_iff)
qed

theorem built_project_check_witness:
  "BuiltProjectIDs exampleBuiltISP \<noteq> []
   \<and> exampleImage \<notin> set (ImageWhitelist exampleBuiltISP)
   \<and> FullyQualifiedImage exampleEnv exampleImage
   \<and> snd (fst (ValidateImageSecurityPolicy exampleEnv exampleBuiltISP exampleImage
                 exampleCleanFetcher exampleAttestors)) = None
   \<and> snd (fst (ValidateImageSecurityPolicy exampleEnv exampleBuiltISP exampleImage
                 exampleArkFetcher exampleAttestors)) = None
   \<and> snd (occsLoop exampleEnv [] [] (fst (OccurencesV1 exampleCleanFetcher exampleImage))) = []
   \<and> snd (occsLoop exampleEnv [] [] (fst (OccurencesV1 exampleArkFetcher exampleImage))) = ''ark''
   \<and> filter (\<lambda>x. vType x = BuildProjectIDViolation)
        (fst (fst (ValidateImageSecurityPolicy exampleEnv exampleBuiltISP exampleImage
                     exampleCleanFetcher exampleAttestors))) =
        [NewViolation None BuildProjectIDViolation
           (BuildProjectIDReason exampleImage [''b'', ''ark''])]
   \<and> filter (\<lambda>x. vType x = BuildProjectIDViolation)
        (fst (fst (ValidateImageSecurityPolicy exampleEnv exampleBuiltISP exampleImage
                     exampleArkFetcher exampleAttestors))) = []
   \<and> BuiltProjectIDs exampleISP = []
   \<and> filter (\<lambda>x. vType x = BuildProjectIDViolation)
        (fst (fst (ValidateImageSecurityPolicy exampleEnv exampleISP exampleImage
                     exampleFetcher exampleAttestors))) = []
   \<and> imageInGCR ''a'' exampleImage"
proof -
  have h1: "BuiltProjectIDs exampleBuiltISP \<noteq> []"
    and h2: "exampleImage \<notin> set (ImageWhitelist exampleBuiltISP)"
    and h3: "FullyQualifiedImage exampleEnv exampleImage"
    and h7: "BuiltProjectIDs exampleISP = []"
    by (simp_all add: example_defs example_built_defs)
  have s1: "snd (occsLoop exampleEnv [] [] (fst (OccurencesV1 exampleCleanFetcher exampleImage))) = []"
    by (simp add: example_built_defs)
  have s2: "snd (occsLoop exampleEnv [] [] (fst (OccurencesV1 exampleArkFetcher exampleImage))) = ''ark''"
    by (simp add: example_defs example_built_defs verifyArkSignature_def)
  have g: "\<not> imageInGCR ''b'' exampleImage" "\<not> imageInGCR ''ark'' exampleImage"
    "imageInGCR ''a'' exampleImage"
    by (simp_all add: imageInGCR_def HasPrefix_def exampleImage_def)
  have h4: "snd (fst (ValidateImageSecurityPolicy exampleEnv exampleBuiltISP exampleImage
                 exampleCleanFetcher exampleAttestors)) = None"
    by (simp add: example_defs example_built_defs ValidateImageSecurityPolicy_def
          imageInWhitelist_def)
  have h5: "snd (fst (ValidateImageSecurityPolicy exampleEnv exampleBuiltISP exampleImage
                 exampleArkFetcher exampleAttestors)) = None"
    by (simp add: example_defs example_built_defs ValidateImageSecurityPolicy_def
          imageInWhitelist_def split: prod.splits)
  have ids: "BuiltProjectIDs exampleBuiltISP = [''b'', ''ark'']"
    by (simp add: example_defs example_built_defs)
  note clean = built_project_check [of exampleEnv exampleBuiltISP exampleImage
                 exampleCleanFetcher exampleAttestors "''a''"]
  note ark = built_project_check [of exampleEnv exampleBuiltISP exampleImage
                 exampleArkFetcher exampleAttestors "''a''"]
  note plain = built_project_check [of exampleEnv exampleISP exampleImage
                 exampleFetcher exampleAttestors "''a''"]
  show ?thesis
    using h1 h2 h3 h4 h5 h7 s1 s2 g clean ark plain ids by simp
qed

section \<open>Default thresholds\<close>

text \<open>
  The loops over occurrences and required attestors only append to the violations they
  are given, so their results can be stated for the empty list.
\<close>

lemma occsLoop_acc:
  "occsLoop env acc s occs =
     (acc @ fst (occsLoop env [] s occs), snd (occsLoop env [] s occs))"
proof (induction occs arbitrary: acc s)
  case Nil
  show ?case by simp
next
  case (Cons occ occs)
  show ?case
  proof (cases "NoteName occ = ARKCI_SIGNATURE_NOTE env")
    case False
    then show ?thesis using Cons.IH [of acc s] by simp
  next
    case True
    show ?thesis
    proof (cases "verifyArkSignature env occ")
      case (Inl err)
      let ?x = "NewViolation None ArkCISignatureViolation (ArkCISignatureReason err)"
      show ?thesis
        using True Inl Cons.IH [of "acc @ [?x]" s] Cons.IH [of "[?x]" s] by simp
    next
      case (Inr token)
      show ?thesis
      proof (cases "TokenClaims token")
        case (MapClaims p)
        then show ?thesis
          using True Inr Cons.IH [of acc "case p of None \<Rightarrow> [] | Some s \<Rightarrow> s"] by simp
      next
        case OtherClaims
        then show ?thesis using True Inr Cons.IH [of acc s] by simp
      qed
    qed
  qed
qed

lemma requiredLoop_acc:
  "requiredLoop env af img atts acc rs =
     (case requiredLoop env af img atts [] rs of
        ((R, None), calls) \<Rightarrow> ((acc @ R, None), calls)
      | ((R, Some e), calls) \<Rightarrow> (([], Some e), calls))"
proof (induction rs arbitrary: acc)
  case Nil
  show ?case by simp
next
  case (Cons r rs)
  obtain a eo where af: "af r = (a, eo)" by (cases "af r")
  show ?case
  proof (cases eo)
    case (Some err)
    then show ?thesis using af by (cases a) simp_all
  next
    case eoNone: None
    show ?thesis
    proof (cases a)
      case None
      then show ?thesis using af eoNone by simp
    next
      case (Some attestor)
      obtain ok ho where h: "hasRequiredAttestation env img attestor atts = (ok, ho)"
        by (cases "hasRequiredAttestation env img attestor atts")
      show ?thesis
      proof (cases ho)
        case (Some err)
        then show ?thesis using af eoNone \<open>a = Some attestor\<close> h by simp
      next
        case None
        let ?x = "NewViolation None RequiredAttestationViolation (RequiredAttestationReason img r)"
        obtain R e calls where rl: "requiredLoop env af img atts [] rs = ((R, e), calls)"
          by (cases "requiredLoop env af img atts [] rs") auto
        show ?thesis
          using af eoNone \<open>a = Some attestor\<close> h None rl
            Cons.IH [of "acc @ [?x]"] Cons.IH [of "[?x]"] Cons.IH [of acc]
          by (cases e) (simp_all split: if_splits)
      qed
    qed
  qed
qed

text \<open>
  Two policies that agree on the whitelists, the builder projects, the required attestors
  and the two effective thresholds get the same verdict: the same kinds of violations
  about the same vulnerabilities, the same error and the same calls. (The reasons differ,
  since they record the policy.)
\<close>

lemma vulnzLoop_kinds:
  assumes wl: "WhitelistCVEs q = WhitelistCVEs p"
  shows "map (\<lambda>x. (vType x, vulnerability x)) (fst (vulnzLoop sv q img mx mn [] vs)) =
         map (\<lambda>x. (vType x, vulnerability x)) (fst (vulnzLoop sv p img mx mn [] vs))
         \<and> snd (vulnzLoop sv q img mx mn [] vs) = snd (vulnzLoop sv p img mx mn [] vs)"
proof -
  have E: "spec_vulnError sv q mx mn = spec_vulnError sv p mx mn"
    by (rule ext) (simp add: spec_vulnError_def wl)
  have C: "map (\<lambda>x. (vType x, vulnerability x)) (spec_vulnViolations sv q img mx mn v) =
           map (\<lambda>x. (vType x, vulnerability x)) (spec_vulnViolations sv p img mx mn v)" for v
    by (simp add: spec_vulnViolations_def wl)
  have CC: "map (\<lambda>x. (vType x, vulnerability x)) (concat (map (spec_vulnViolations sv q img mx mn) xs)) =
            map (\<lambda>x. (vType x, vulnerability x)) (concat (map (spec_vulnViolations sv p img mx mn) xs))"
    for xs
    by (induction xs) (simp_all add: C)
  show ?thesis
    unfolding vulnzLoop_closed_form E by (simp add: CC)
qed

lemma Validate_same_thresholds:
  assumes iw: "ImageWhitelist q = ImageWhitelist p"
    and wl: "WhitelistCVEs q = WhitelistCVEs p"
    and bp: "BuiltProjectIDs q = BuiltProjectIDs p"
    and ra: "RequireAttestationsBy q = RequireAttestationsBy p"
    and ms: "maxSev q = maxSev p"
    and mn: "maxNoFixSev q = maxNoFixSev p"
  shows "map (\<lambda>x. (vType x, vulnerability x))
             (fst (fst (ValidateImageSecurityPolicy env q img mf af))) =
         map (\<lambda>x. (vType x, vulnerability x))
             (fst (fst (ValidateImageSecurityPolicy env p img mf af)))
         \<and> snd (fst (ValidateImageSecurityPolicy env q img mf af)) =
           snd (fst (ValidateImageSecurityPolicy env p img mf af))
         \<and> snd (ValidateImageSecurityPolicy env q img mf af) =
           snd (ValidateImageSecurityPolicy env p img mf af)"
proof (cases "img \<in> set (ImageWhitelist p) \<or> \<not> FullyQualifiedImage env img")
  case True
  then show ?thesis
    using iw by (auto simp add: ValidateImageSecurityPolicy_def imageInWhitelist_def)
next
  case False
  then have nw: "img \<notin> set (ImageWhitelist p)" "img \<notin> set (ImageWhitelist q)"
    and fq: "FullyQualifiedImage env img"
    using iw by simp_all
  let ?sv = "SeverityTable env"
  obtain vulnz ve where vz: "Vulnerabilities mf img = (vulnz, ve)"
    by (cases "Vulnerabilities mf img")
  show ?thesis
  proof (cases ve)
    case (Some e)
    then show ?thesis
      using nw fq vz by (simp add: ValidateImageSecurityPolicy_def imageInWhitelist_def)
  next
    case None
    obtain Vp eo where sp: "vulnzLoop ?sv p img (maxSev p) (maxNoFixSev p) [] vulnz = (Vp, eo)"
      by (cases "vulnzLoop ?sv p img (maxSev p) (maxNoFixSev p) [] vulnz")
    obtain Vq eo' where sq: "vulnzLoop ?sv q img (maxSev p) (maxNoFixSev p) [] vulnz = (Vq, eo')"
      by (cases "vulnzLoop ?sv q img (maxSev p) (maxNoFixSev p) [] vulnz")
    have k: "map (\<lambda>x. (vType x, vulnerability x)) Vq = map (\<lambda>x. (vType x, vulnerability x)) Vp"
      and e: "eo' = eo"
      using vulnzLoop_kinds [OF wl, of ?sv img "maxSev p" "maxNoFixSev p" vulnz] sp sq
      by simp_all
    show ?thesis
    proof (cases eo)
      case (Some err)
      then show ?thesis
        using nw fq vz None sp sq k e ms mn
        by (simp add: ValidateImageSecurityPolicy_def imageInWhitelist_def)
    next
      case eoNone: None
      obtain occs oerr where occ: "OccurencesV1 mf img = (occs, oerr)"
        by (cases "OccurencesV1 mf img")
      let ?J = "fst (occsLoop env [] [] occs)"
      let ?s = "snd (occsLoop env [] [] occs)"
      let ?B = "checkBuiltProjectIDs p img ?s []"
      have olp: "occsLoop env Vp [] occs = (Vp @ ?J, ?s)"
        and olq: "occsLoop env Vq [] occs = (Vq @ ?J, ?s)"
        using occsLoop_acc [of env Vp "[]" occs] occsLoop_acc [of env Vq "[]" occs] by simp_all
      have bpp: "checkBuiltProjectIDs p img ?s (Vp @ ?J) = Vp @ ?J @ ?B"
        using checkBuiltProjectIDs_acc [of p img ?s "Vp @ ?J"] by simp
      have bq0: "checkBuiltProjectIDs q img ?s [] = ?B"
        by (simp add: checkBuiltProjectIDs_def bp)
      have bqq: "checkBuiltProjectIDs q img ?s (Vq @ ?J) = Vq @ ?J @ ?B"
        using checkBuiltProjectIDs_acc [of q img ?s "Vq @ ?J"] bq0 by simp
      show ?thesis
      proof (cases "RequireAttestationsBy p = []")
        case True
        then show ?thesis
          using nw fq vz None sp sq k e ms mn eoNone occ olp olq bpp bqq ra
          by (simp add: ValidateImageSecurityPolicy_def imageInWhitelist_def)
      next
        case False
        obtain atts aerr where at: "Attestations mf img = (atts, aerr)"
          by (cases "Attestations mf img")
        show ?thesis
        proof (cases aerr)
          case (Some err)
          then show ?thesis
            using nw fq vz None sp sq k e ms mn eoNone occ olp olq bpp bqq ra False at
            by (simp add: ValidateImageSecurityPolicy_def imageInWhitelist_def)
        next
          case aNone: None
          obtain R re calls where rl:
            "requiredLoop env af img atts [] (RequireAttestationsBy p) = ((R, re), calls)"
            by (cases "requiredLoop env af img atts [] (RequireAttestationsBy p)") auto
          have rp: "requiredLoop env af img atts (Vp @ ?J @ ?B) (RequireAttestationsBy p) =
                      ((if re = None then (Vp @ ?J @ ?B) @ R else [], re), calls)"
            using requiredLoop_acc [of env af img atts "Vp @ ?J @ ?B" "RequireAttestationsBy p"] rl
            by (cases re) simp_all
          have rq: "requiredLoop env af img atts (Vq @ ?J @ ?B) (RequireAttestationsBy p) =
                      ((if re = None then (Vq @ ?J @ ?B) @ R else [], re), calls)"
            using requiredLoop_acc [of env af img atts "Vq @ ?J @ ?B" "RequireAttestationsBy p"] rl
            by (cases re) simp_all
          show ?thesis
            using nw fq vz None sp sq k e ms mn eoNone occ olp olq bpp bqq ra False at aNone rp rq
            by (simp add: ValidateImageSecurityPolicy_def imageInWhitelist_def)
        qed
      qed
    qed
  qed
qed

lemma vulnzLoop_allow_all_no_fix:
  "vulnzLoop sv isp img mx AllowAll acc vs =
   vulnzLoop sv isp img mx AllowAll acc (filter HasFixAvailable vs)"
proof (induction vs arbitrary: acc)
  case Nil
  show ?case by simp
next
  case (Cons v vs)
  have allow: "severityWithinThreshold sv AllowAll (Severity v) = (True, None)"
    by (simp add: severityWithinThreshold_def AllowAll_def BlockAll_def)
  show ?case
  proof (cases "HasFixAvailable v")
    case False
    then show ?thesis by (simp add: allow Cons.IH)
  next
    case True
    obtain ok eo where c: "severityWithinThreshold sv mx (Severity v) = (ok, eo)"
      by (cases "severityWithinThreshold sv mx (Severity v)")
    show ?thesis
      using True c by (cases eo) (simp_all add: Cons.IH)
  qed
qed

lemma Validate_allow_all_no_fix:
  assumes "maxNoFixSev isp = AllowAll"
  shows "ValidateImageSecurityPolicy env isp img
           (mf\<lparr>Vulnerabilities :=
                 (\<lambda>i. (filter HasFixAvailable (fst (Vulnerabilities mf i)),
                       snd (Vulnerabilities mf i)))\<rparr>) af =
         ValidateImageSecurityPolicy env isp img mf af"
proof -
  obtain vulnz ve where vz: "Vulnerabilities mf img = (vulnz, ve)"
    by (cases "Vulnerabilities mf img")
  have scan: "vulnzLoop (SeverityTable env) isp img (maxSev isp) (maxNoFixSev isp) []
                (filter HasFixAvailable vulnz) =
              vulnzLoop (SeverityTable env) isp img (maxSev isp) (maxNoFixSev isp) [] vulnz"
    using vulnzLoop_allow_all_no_fix [of "SeverityTable env" isp img "maxSev isp" "[]" vulnz] assms
    by simp
  show ?thesis
    using vz scan
    by (auto simp add: ValidateImageSecurityPolicy_def Let_def split: prod.splits option.splits)
qed

text \<open>
  A policy whose \<open>maximumSeverity\<close> is the empty string gets the verdict of the same
  policy with CRITICAL, and a policy whose \<open>maximumFixUnavailableSeverity\<close> is the empty
  string that of the same policy with the allow-all sentinel; in the second case, removing
  every vulnerability without a fix from the fetched list leaves the result unchanged.
\<close>

lemma threshold_defaults_same_verdict:
  "(MaximumSeverity isp = [] \<longrightarrow>
      map (\<lambda>x. (vType x, vulnerability x))
        (fst (fst (ValidateImageSecurityPolicy env isp img mf af))) =
      map (\<lambda>x. (vType x, vulnerability x))
        (fst (fst (ValidateImageSecurityPolicy env
                     (isp\<lparr>MaximumSeverity := ''CRITICAL''\<rparr>) img mf af)))
      \<and> snd (fst (ValidateImageSecurityPolicy env isp img mf af)) =
        snd (fst (ValidateImageSecurityPolicy env
                    (isp\<lparr>MaximumSeverity := ''CRITICAL''\<rparr>) img mf af))
      \<and> snd (ValidateImageSecurityPolicy env isp img mf af) =
        snd (ValidateImageSecurityPolicy env
               (isp\<lparr>MaximumSeverity := ''CRITICAL''\<rparr>) img mf af))
   \<and> (MaximumFixUnavailableSeverity isp = [] \<longrightarrow>
      map (\<lambda>x. (vType x, vulnerability x))
        (fst (fst (ValidateImageSecurityPolicy env isp img mf af))) =
      map (\<lambda>x. (vType x, vulnerability x))
        (fst (fst (ValidateImageSecurityPolicy env
                     (isp\<lparr>MaximumFixUnavailableSeverity := AllowAll\<rparr>) img mf af)))
      \<and> snd (fst (ValidateImageSecurityPolicy env isp img mf af)) =
        snd (fst (ValidateImageSecurityPolicy env
                    (isp\<lparr>MaximumFixUnavailableSeverity := AllowAll\<rparr>) img mf af))
      \<and> snd (ValidateImageSecurityPolicy env isp img mf af) =
        snd (ValidateImageSecurityPolicy env
               (isp\<lparr>MaximumFixUnavailableSeverity := AllowAll\<rparr>) img mf af)
      \<and> ValidateImageSecurityPolicy env isp img mf af =
        ValidateImageSecurityPolicy env isp img
          (mf\<lparr>Vulnerabilities :=
                (\<lambda>i. (filter HasFixAvailable (fst (Vulnerabilities mf i)),
                      snd (Vulnerabilities mf i)))\<rparr>) af)"
proof (intro conjI impI)
  assume e: "MaximumSeverity isp = []"
  let ?q = "isp\<lparr>MaximumSeverity := ''CRITICAL''\<rparr>"
  have ms: "maxSev isp = maxSev ?q" using e by (simp add: maxSev_def)
  have mn: "maxNoFixSev isp = maxNoFixSev ?q" by (simp add: maxNoFixSev_def)
  note c = Validate_same_thresholds [of isp ?q, OF _ _ _ _ ms mn, of env img mf af, simplified]
  show "map (\<lambda>x. (vType x, vulnerability x))
        (fst (fst (ValidateImageSecurityPolicy env isp img mf af))) =
      map (\<lambda>x. (vType x, vulnerability x))
        (fst (fst (ValidateImageSecurityPolicy env ?q img mf af)))"
    using c by simp
  show "snd (fst (ValidateImageSecurityPolicy env isp img mf af)) =
        snd (fst (ValidateImageSecurityPolicy env ?q img mf af))"
    using c by simp
  show "snd (ValidateImageSecurityPolicy env isp img mf af) =
        snd (ValidateImageSecurityPolicy env ?q img mf af)"
    using c by simp
next
  assume e: "MaximumFixUnavailableSeverity isp = []"
  let ?q = "isp\<lparr>MaximumFixUnavailableSeverity := AllowAll\<rparr>"
  have ms: "maxSev isp = maxSev ?q" by (simp add: maxSev_def)
  have mn: "maxNoFixSev isp = maxNoFixSev ?q"
    using e by (simp add: maxNoFixSev_def AllowAll_def)
  note c = Validate_same_thresholds [of isp ?q, OF _ _ _ _ ms mn, of env img mf af, simplified]
  show "map (\<lambda>x. (vType x, vulnerability x))
        (fst (fst (ValidateImageSecurityPolicy env isp img mf af))) =
      map (\<lambda>x. (vType x, vulnerability x))
        (fst (fst (ValidateImageSecurityPolicy env ?q img mf af)))"
    using c by simp
  show "snd (fst (ValidateImageSecurityPolicy env isp img mf af)) =
        snd (fst (ValidateImageSecurityPolicy env ?q img mf af))"
    using c by simp
  show "snd (ValidateImageSecurityPolicy env isp img mf af) =
        snd (ValidateImageSecurityPolicy env ?q img mf af)"
    using c by simp
  have "maxNoFixSev isp = AllowAll"
    using e by (simp add: maxNoFixSev_def AllowAll_def)
  from Validate_allow_all_no_fix [OF this, of env img mf af]
  show "ValidateImageSecurityPolicy env isp img mf af =
        ValidateImageSecurityPolicy env isp img
          (mf\<lparr>Vulnerabilities :=
                (\<lambda>i. (filter HasFixAvailable (fst (Vulnerabilities mf i)),
                      snd (Vulnerabilities mf i)))\<rparr>) af"
    by simp
qed

lemma within_CRITICAL_program_table:
  "snd (severityWithinThreshold Severity_value ''CRITICAL'' s) = None \<Longrightarrow>
   fst (severityWithinThreshold Severity_value ''CRITICAL'' s)"
  by (auto simp add: severityWithinThreshold_def Severity_value_def spec_latticeRank_def
        BlockAll_def AllowAll_def split: if_splits)

lemma spec_vulnViolations_CRITICAL_no_severity:
  assumes "spec_vulnError Severity_value isp ''CRITICAL'' mxNoFix v = None"
  shows "\<forall>x \<in> set (spec_vulnViolations Severity_value isp img ''CRITICAL'' mxNoFix v).
           vType x \<noteq> SeverityViolation"
  using assms within_CRITICAL_program_table [of "Severity v"]
  by (auto simp add: spec_vulnViolations_def spec_vulnError_def split: if_splits)

text \<open>
  Claim C8. For an image that is not whitelisted and is fully qualified, and a successful
  fetch of the vulnerability list:
  \<^item> when \<open>maximumSeverity\<close> is the empty string, the scan is the scan with the
    threshold CRITICAL for the vulnerabilities that have a fix: a run without error
    returns, first, their contributions under CRITICAL, and the first vulnerability
    whose comparison with CRITICAL fails ends the evaluation with that error. For such a
    vulnerability the error and the contribution are those of \<open>severityWithinThreshold\<close>
    applied to CRITICAL and its severity, unless its CVE is whitelisted, in which case it
    is skipped;
  \<^item> when \<open>maximumFixUnavailableSeverity\<close> is the empty string, the scan is the scan
    with the allow-all sentinel for the vulnerabilities without a fix. Each of them
    passes: it raises no error and contributes nothing, whatever its severity; no
    returned violation is a Fix-Unavailable violation, and removing every vulnerability
    without a fix from the fetched list leaves the result of the evaluator unchanged;
  \<^item> on the table of the program, with an empty \<open>maximumSeverity\<close>, a run without
    error returns no Severity violation, since no key of the table ranks above CRITICAL.
\<close>

theorem empty_thresholds_use_defaults:
  assumes nw: "img \<notin> set (ImageWhitelist isp)"
    and fq: "FullyQualifiedImage env img"
    and vz: "Vulnerabilities mf img = (vulnz, None)"
  shows "(MaximumSeverity isp = [] \<longrightarrow>
          snd (fst (ValidateImageSecurityPolicy env isp img mf af)) = None \<longrightarrow>
            (\<exists>rest. fst (fst (ValidateImageSecurityPolicy env isp img mf af)) =
                 concat (map (spec_vulnViolations (SeverityTable env) isp img
                                ''CRITICAL'' (maxNoFixSev isp)) vulnz) @ rest
               \<and> (\<forall>x \<in> set rest. vType x \<noteq> FixUnavailableViolation
                                     \<and> vType x \<noteq> SeverityViolation)))
       \<and> (MaximumSeverity isp = [] \<longrightarrow> vulnz = pre @ v # post \<longrightarrow>
            (\<forall>u \<in> set pre. spec_vulnError (SeverityTable env) isp
                               ''CRITICAL'' (maxNoFixSev isp) u = None) \<longrightarrow>
            spec_vulnError (SeverityTable env) isp ''CRITICAL'' (maxNoFixSev isp) v = Some e \<longrightarrow>
            ValidateImageSecurityPolicy env isp img mf af =
              ((concat (map (spec_vulnViolations (SeverityTable env) isp img
                               ''CRITICAL'' (maxNoFixSev isp)) pre), Some e),
               [CallVulnerabilities img]))
       \<and> (MaximumFixUnavailableSeverity isp = [] \<longrightarrow>
          snd (fst (ValidateImageSecurityPolicy env isp img mf af)) = None \<longrightarrow>
            (\<exists>rest. fst (fst (ValidateImageSecurityPolicy env isp img mf af)) =
                 concat (map (spec_vulnViolations (SeverityTable env) isp img
                                (maxSev isp) AllowAll) vulnz) @ rest
               \<and> (\<forall>x \<in> set rest. vType x \<noteq> FixUnavailableViolation
                                     \<and> vType x \<noteq> SeverityViolation)))
       \<and> (MaximumFixUnavailableSeverity isp = [] \<longrightarrow> vulnz = pre @ v # post \<longrightarrow>
            (\<forall>u \<in> set pre. spec_vulnError (SeverityTable env) isp
                               (maxSev isp) AllowAll u = None) \<longrightarrow>
            spec_vulnError (SeverityTable env) isp (maxSev isp) AllowAll v = Some e \<longrightarrow>
            ValidateImageSecurityPolicy env isp img mf af =
              ((concat (map (spec_vulnViolations (SeverityTable env) isp img
                               (maxSev isp) AllowAll) pre), Some e),
               [CallVulnerabilities img]))
       \<and> (HasFixAvailable x \<longrightarrow>
            spec_vulnError sv isp ''CRITICAL'' mxNoFix x
              = (if CVE x \<in> set (WhitelistCVEs isp) then None
                 else snd (severityWithinThreshold sv ''CRITICAL'' (Severity x)))
            \<and> spec_vulnViolations sv isp img ''CRITICAL'' mxNoFix x
              = (if CVE x \<in> set (WhitelistCVEs isp) then []
                 else if fst (severityWithinThreshold sv ''CRITICAL'' (Severity x)) then []
                 else [\<lparr>vulnerability = Some x, vType = SeverityViolation,
                        reason = SeverityReason img x isp\<rparr>]))
       \<and> (HasFixAvailable y = False \<longrightarrow>
            spec_vulnError sv isp mx AllowAll y = None
            \<and> spec_vulnViolations sv isp img mx AllowAll y = [])
       \<and> (MaximumFixUnavailableSeverity isp = [] \<longrightarrow>
            (\<forall>x \<in> set (fst (fst (ValidateImageSecurityPolicy env isp img mf af))).
               vType x \<noteq> FixUnavailableViolation)
            \<and> ValidateImageSecurityPolicy env isp img mf af =
              ValidateImageSecurityPolicy env isp img
                (mf\<lparr>Vulnerabilities :=
                      (\<lambda>i. (filter HasFixAvailable (fst (Vulnerabilities mf i)),
                            snd (Vulnerabilities mf i)))\<rparr>) af)
       \<and> (MaximumSeverity isp = [] \<longrightarrow> SeverityTable env = Severity_value \<longrightarrow>
            snd (fst (ValidateImageSecurityPolicy env isp img mf af)) = None \<longrightarrow>
            (\<forall>x \<in> set (fst (fst (ValidateImageSecurityPolicy env isp img mf af))).
               vType x \<noteq> SeverityViolation))"
proof -
  let ?r = "ValidateImageSecurityPolicy env isp img mf af"
  note any = vulnerability_scan_any_table [OF nw fq vz, of af pre v post e v]
  have c1: "maxSev isp = ''CRITICAL''" if "MaximumSeverity isp = []"
    using that by (simp add: maxSev_def)
  have c2: "maxNoFixSev isp = AllowAll" if "MaximumFixUnavailableSeverity isp = []"
    using that by (simp add: maxNoFixSev_def AllowAll_def)
  have allow: "severityWithinThreshold t AllowAll s = (True, None)" for t s
    by (simp add: severityWithinThreshold_def AllowAll_def BlockAll_def)
  have p1: "MaximumSeverity isp = [] \<longrightarrow> snd (fst ?r) = None \<longrightarrow>
            (\<exists>rest. fst (fst ?r) =
                 concat (map (spec_vulnViolations (SeverityTable env) isp img
                                ''CRITICAL'' (maxNoFixSev isp)) vulnz) @ rest
               \<and> (\<forall>x \<in> set rest. vType x \<noteq> FixUnavailableViolation
                                     \<and> vType x \<noteq> SeverityViolation))"
    using any c1 by auto
  have p2: "MaximumSeverity isp = [] \<longrightarrow> vulnz = pre @ v # post \<longrightarrow>
            (\<forall>u \<in> set pre. spec_vulnError (SeverityTable env) isp
                               ''CRITICAL'' (maxNoFixSev isp) u = None) \<longrightarrow>
            spec_vulnError (SeverityTable env) isp ''CRITICAL'' (maxNoFixSev isp) v = Some e \<longrightarrow>
            ?r = ((concat (map (spec_vulnViolations (SeverityTable env) isp img
                               ''CRITICAL'' (maxNoFixSev isp)) pre), Some e),
               [CallVulnerabilities img])"
    using any c1 by auto
  have p3: "MaximumFixUnavailableSeverity isp = [] \<longrightarrow> snd (fst ?r) = None \<longrightarrow>
            (\<exists>rest. fst (fst ?r) =
                 concat (map (spec_vulnViolations (SeverityTable env) isp img
                                (maxSev isp) AllowAll) vulnz) @ rest
               \<and> (\<forall>x \<in> set rest. vType x \<noteq> FixUnavailableViolation
                                     \<and> vType x \<noteq> SeverityViolation))"
    using any c2 by auto
  have p4: "MaximumFixUnavailableSeverity isp = [] \<longrightarrow> vulnz = pre @ v # post \<longrightarrow>
            (\<forall>u \<in> set pre. spec_vulnError (SeverityTable env) isp
                               (maxSev isp) AllowAll u = None) \<longrightarrow>
            spec_vulnError (SeverityTable env) isp (maxSev isp) AllowAll v = Some e \<longrightarrow>
            ?r = ((concat (map (spec_vulnViolations (SeverityTable env) isp img
                               (maxSev isp) AllowAll) pre), Some e),
               [CallVulnerabilities img])"
    using any c2 by auto
  have p5: "HasFixAvailable x \<longrightarrow>
            spec_vulnError sv isp ''CRITICAL'' mxNoFix x
              = (if CVE x \<in> set (WhitelistCVEs isp) then None
                 else snd (severityWithinThreshold sv ''CRITICAL'' (Severity x)))
            \<and> spec_vulnViolations sv isp img ''CRITICAL'' mxNoFix x
              = (if CVE x \<in> set (WhitelistCVEs isp) then []
                 else if fst (severityWithinThreshold sv ''CRITICAL'' (Severity x)) then []
                 else [\<lparr>vulnerability = Some x, vType = SeverityViolation,
                        reason = SeverityReason img x isp\<rparr>])"
    by (simp add: spec_vulnError_def spec_vulnViolations_def)
  have p6: "HasFixAvailable y = False \<longrightarrow>
            spec_vulnError sv isp mx AllowAll y = None
            \<and> spec_vulnViolations sv isp img mx AllowAll y = []"
    by (simp add: spec_vulnError_def spec_vulnViolations_def allow)
  have noFix: "\<forall>x \<in> set (fst (fst ?r)). vType x \<noteq> FixUnavailableViolation"
    if e: "MaximumFixUnavailableSeverity isp = []"
  proof (cases "snd (fst ?r) = None")
    case True
    from Validate_success_shape [OF nw fq vz True] obtain J R where
      sh: "fst (fst ?r) = concat (map (spec_vulnViolations (SeverityTable env) isp img
                                        (maxSev isp) (maxNoFixSev isp)) vulnz) @ J
             @ checkBuiltProjectIDs isp img (snd (occsLoop env [] [] (fst (OccurencesV1 mf img)))) []
             @ R"
      and J: "\<forall>x \<in> set J. vType x = ArkCISignatureViolation"
      and R: "\<forall>x \<in> set R. vType x = RequiredAttestationViolation"
      by blast
    have V: "\<forall>x \<in> set (concat (map (spec_vulnViolations (SeverityTable env) isp img
                                        (maxSev isp) (maxNoFixSev isp)) vulnz)).
               vType x \<noteq> FixUnavailableViolation"
      using c2 [OF e] by (auto simp add: spec_vulnViolations_def allow split: if_splits)
    show ?thesis
      using sh V J R checkBuiltProjectIDs_kind [of isp img] by auto
  next
    case False
    consider (abort) pre' v' post' e' where "vulnz = pre' @ v' # post'"
        "\<forall>u \<in> set pre'. spec_vulnError (SeverityTable env) isp
                                   (maxSev isp) (maxNoFixSev isp) u = None"
        "spec_vulnError (SeverityTable env) isp (maxSev isp) (maxNoFixSev isp) v' = Some e'"
      | (empty) "fst (fst ?r) = []"
    proof (cases "\<forall>u \<in> set vulnz. spec_vulnError (SeverityTable env) isp
                                    (maxSev isp) (maxNoFixSev isp) u = None")
      case True
      have scan: "vulnzLoop (SeverityTable env) isp img (maxSev isp) (maxNoFixSev isp) [] vulnz
                    = (concat (map (spec_vulnViolations (SeverityTable env) isp img
                                      (maxSev isp) (maxNoFixSev isp)) vulnz), None)"
        using vulnzLoop_no_error [OF True, of img "[]"] by simp
      have "\<forall>x \<in> set (fst (fst ?r)). vType x = FixUnavailableViolation \<or> vType x = SeverityViolation"
        using Validate_error_violations [OF False] .
      moreover have "fst (fst ?r) = [] \<or> snd (fst ?r) = None"
      proof (cases "RequireAttestationsBy isp = []")
        case True
        then show ?thesis
          using nw fq vz scan
          by (auto simp add: ValidateImageSecurityPolicy_def imageInWhitelist_def Let_def
                split: prod.splits)
      next
        case ne: False
        obtain atts ae where at: "Attestations mf img = (atts, ae)"
          by (cases "Attestations mf img")
        show ?thesis
        proof (cases ae)
          case (Some err)
          then show ?thesis
            using nw fq vz scan ne at
            by (auto simp add: ValidateImageSecurityPolicy_def imageInWhitelist_def Let_def
                  split: prod.splits)
        next
          case None
          from Validate_reaches_required [OF nw fq vz True ne, of atts af] at None
          obtain before where
            v: "?r = (case requiredLoop env af img atts before (RequireAttestationsBy isp) of
                  (res, calls) \<Rightarrow>
                    (res, [CallVulnerabilities img, CallOccurencesV1 img,
                           CallAttestations img] @ calls))"
            by blast
          from requiredLoop_shape [of env af img atts before "RequireAttestationsBy isp"]
          show ?thesis using v by auto
        qed
      qed
      ultimately show ?thesis using False empty by blast
    next
      case notall: False
      let ?P = "\<lambda>u. spec_vulnError (SeverityTable env) isp (maxSev isp) (maxNoFixSev isp) u = None"
      have ne: "dropWhile ?P vulnz \<noteq> []" using notall by auto
      then obtain v' post' where dw: "dropWhile ?P vulnz = v' # post'"
        by (cases "dropWhile ?P vulnz") auto
      have s1: "vulnz = takeWhile ?P vulnz @ v' # post'"
        using takeWhile_dropWhile_id [of ?P vulnz] dw by simp
      have s2: "\<forall>u \<in> set (takeWhile ?P vulnz). ?P u"
        using set_takeWhileD by fastforce
      have "\<not> ?P v'" using hd_dropWhile [OF ne] dw by simp
      then obtain e' where "spec_vulnError (SeverityTable env) isp (maxSev isp)
                              (maxNoFixSev isp) v' = Some e'" by auto
      with s1 s2 show ?thesis using abort by blast
    qed
    then show ?thesis
    proof cases
      case abort
      note 1 = abort
      have vz': "Vulnerabilities mf img = (pre' @ v' # post', None)" using vz 1(1) by simp
      have "?r = ((concat (map (spec_vulnViolations (SeverityTable env) isp img
                                  (maxSev isp) (maxNoFixSev isp)) pre'), Some e'),
                  [CallVulnerabilities img])"
        by (rule Validate_scan_error [OF nw fq vz' 1(2) 1(3)])
      then show ?thesis
        using c2 [OF e] by (auto simp add: spec_vulnViolations_def allow split: if_splits)
    next
      case empty
      then show ?thesis by simp
    qed
  qed
  have p7: "MaximumFixUnavailableSeverity isp = [] \<longrightarrow>
            (\<forall>x \<in> set (fst (fst ?r)). vType x \<noteq> FixUnavailableViolation)
            \<and> ?r = ValidateImageSecurityPolicy env isp img
                (mf\<lparr>Vulnerabilities :=
                      (\<lambda>i. (filter HasFixAvailable (fst (Vulnerabilities mf i)),
                            snd (Vulnerabilities mf i)))\<rparr>) af"
    using noFix c2 Validate_allow_all_no_fix [of isp env img mf af] by auto
  have p8: "MaximumSeverity isp = [] \<longrightarrow> SeverityTable env = Severity_value \<longrightarrow>
            snd (fst ?r) = None \<longrightarrow>
            (\<forall>x \<in> set (fst (fst ?r)). vType x \<noteq> SeverityViolation)"
  proof (intro impI)
    assume e: "MaximumSeverity isp = []" and t: "SeverityTable env = Severity_value"
      and ok: "snd (fst ?r) = None"
    from Validate_success_shape [OF nw fq vz ok] obtain J R where
      sh: "fst (fst ?r) = concat (map (spec_vulnViolations (SeverityTable env) isp img
                                        (maxSev isp) (maxNoFixSev isp)) vulnz) @ J
             @ checkBuiltProjectIDs isp img (snd (occsLoop env [] [] (fst (OccurencesV1 mf img)))) []
             @ R"
      and J: "\<forall>x \<in> set J. vType x = ArkCISignatureViolation"
      and R: "\<forall>x \<in> set R. vType x = RequiredAttestationViolation"
      and noerr: "\<forall>v \<in> set vulnz. spec_vulnError (SeverityTable env) isp
                                       (maxSev isp) (maxNoFixSev isp) v = None"
      by blast
    have V: "\<forall>x \<in> set (concat (map (spec_vulnViolations (SeverityTable env) isp img
                                        (maxSev isp) (maxNoFixSev isp)) vulnz)).
               vType x \<noteq> SeverityViolation"
      using noerr spec_vulnViolations_CRITICAL_no_severity [of isp "maxNoFixSev isp" _ img]
        c1 [OF e] t by auto
    show "\<forall>x \<in> set (fst (fst ?r)). vType x \<noteq> SeverityViolation"
      using sh V J R checkBuiltProjectIDs_kind [of isp img] by auto
  qed
  show ?thesis
    using p1 p2 p3 p4 p5 p6 p7 p8 by blast
qed

theorem empty_thresholds_use_defaults_witness:
  "exampleImage \<notin> set (ImageWhitelist exampleDefaultISP)
   \<and> FullyQualifiedImage exampleEnv exampleImage
   \<and> MaximumSeverity exampleDefaultISP = []
   \<and> MaximumFixUnavailableSeverity exampleDefaultISP = []
   \<and> SeverityTable exampleEnv = Severity_value
   \<and> Vulnerabilities exampleBadFetcher exampleImage = (exampleBadVulnz, None)
   \<and> exampleBadVulnz =
       [\<lparr>CVE = ''CVE-2'', Severity = ''HIGH'', HasFixAvailable = True\<rparr>]
       @ \<lparr>CVE = ''CVE-6'', Severity = ''BOGUS'', HasFixAvailable = True\<rparr>
       # [\<lparr>CVE = ''CVE-5'', Severity = ''LOW'', HasFixAvailable = True\<rparr>]
   \<and> spec_vulnError (SeverityTable exampleEnv) exampleDefaultISP ''CRITICAL''
        (maxNoFixSev exampleDefaultISP)
        \<lparr>CVE = ''CVE-2'', Severity = ''HIGH'', HasFixAvailable = True\<rparr> = None
   \<and> spec_vulnError (SeverityTable exampleEnv) exampleDefaultISP ''CRITICAL''
        (maxNoFixSev exampleDefaultISP)
        \<lparr>CVE = ''CVE-6'', Severity = ''BOGUS'', HasFixAvailable = True\<rparr>
       = Some (InvalidSeverityLevel ''BOGUS'')
   \<and> ValidateImageSecurityPolicy exampleEnv exampleDefaultISP exampleImage
        exampleBadFetcher exampleAttestors =
        (([], Some (InvalidSeverityLevel ''BOGUS'')), [CallVulnerabilities exampleImage])
   \<and> Vulnerabilities exampleNoFixFetcher exampleImage = (exampleNoFixVulnz, None)
   \<and> ValidateImageSecurityPolicy exampleEnv exampleDefaultISP exampleImage
        exampleNoFixFetcher exampleAttestors =
        (([], None), [CallVulnerabilities exampleImage, CallOccurencesV1 exampleImage])
   \<and> Vulnerabilities exampleFetcher exampleImage = (exampleVulnz, None)
   \<and> ValidateImageSecurityPolicy exampleEnv exampleDefaultISP exampleImage
        exampleFetcher exampleAttestors =
        (([], None), [CallVulnerabilities exampleImage, CallOccurencesV1 exampleImage])"
proof -
  let ?v2 = "\<lparr>CVE = ''CVE-2'', Severity = ''HIGH'', HasFixAvailable = True\<rparr>"
  let ?v6 = "\<lparr>CVE = ''CVE-6'', Severity = ''BOGUS'', HasFixAvailable = True\<rparr>"
  let ?v5 = "\<lparr>CVE = ''CVE-5'', Severity = ''LOW'', HasFixAvailable = True\<rparr>"
  let ?v8 = "\<lparr>CVE = ''CVE-8'', Severity = ''BOGUS'', HasFixAvailable = False\<rparr>"
  have h1: "exampleImage \<notin> set (ImageWhitelist exampleDefaultISP)"
    and h2: "FullyQualifiedImage exampleEnv exampleImage"
    and m1: "MaximumSeverity exampleDefaultISP = []"
    and m2: "MaximumFixUnavailableSeverity exampleDefaultISP = []"
    and t: "SeverityTable exampleEnv = Severity_value"
    and f1: "Vulnerabilities exampleBadFetcher exampleImage = (exampleBadVulnz, None)"
    and f2: "Vulnerabilities exampleNoFixFetcher exampleImage = (exampleNoFixVulnz, None)"
    and f3: "Vulnerabilities exampleFetcher exampleImage = (exampleVulnz, None)"
    and sp: "exampleBadVulnz = [?v2] @ ?v6 # [?v5]"
    by (simp_all add: exampleDefaultISP_def example_defs example_attest_defs
          example_revision_defs)
  have e2: "spec_vulnError (SeverityTable exampleEnv) exampleDefaultISP ''CRITICAL''
              (maxNoFixSev exampleDefaultISP) ?v2 = None"
    and e6: "spec_vulnError (SeverityTable exampleEnv) exampleDefaultISP ''CRITICAL''
              (maxNoFixSev exampleDefaultISP) ?v6 = Some (InvalidSeverityLevel ''BOGUS'')"
    and c2: "spec_vulnViolations (SeverityTable exampleEnv) exampleDefaultISP exampleImage
               ''CRITICAL'' (maxNoFixSev exampleDefaultISP) ?v2 = []"
    by (simp_all add: spec_vulnError_def spec_vulnViolations_def exampleDefaultISP_def
          exampleEnv_def exampleISP_def evaluator_defs)
  have pre: "\<forall>u \<in> set [?v2]. spec_vulnError (SeverityTable exampleEnv) exampleDefaultISP
               ''CRITICAL'' (maxNoFixSev exampleDefaultISP) u = None"
    using e2 by simp
  note bad = empty_thresholds_use_defaults [OF h1 h2 f1,
               where af = exampleAttestors and pre = "[?v2]" and v = ?v6 and post = "[?v5]"
                 and e = "InvalidSeverityLevel ''BOGUS''" and x = ?v6 and y = ?v8]
  have r1: "ValidateImageSecurityPolicy exampleEnv exampleDefaultISP exampleImage
        exampleBadFetcher exampleAttestors =
        (([], Some (InvalidSeverityLevel ''BOGUS'')), [CallVulnerabilities exampleImage])"
    using bad m1 sp pre e6 c2 by simp
  have r2: "ValidateImageSecurityPolicy exampleEnv exampleDefaultISP exampleImage
        exampleNoFixFetcher exampleAttestors =
        (([], None), [CallVulnerabilities exampleImage, CallOccurencesV1 exampleImage])"
    by (simp add: exampleDefaultISP_def example_defs example_attest_defs example_revision_defs
          evaluator_defs)
  have r3: "ValidateImageSecurityPolicy exampleEnv exampleDefaultISP exampleImage
        exampleFetcher exampleAttestors =
        (([], None), [CallVulnerabilities exampleImage, CallOccurencesV1 exampleImage])"
    by (simp add: exampleDefaultISP_def example_defs evaluator_defs)
  show ?thesis
    using h1 h2 m1 m2 t f1 f2 f3 sp e2 e6 r1 r2 r3 by simp
qed

section \<open>The short-circuit of the reviewer\<close>

text \<open>
  On the sample reviewer, an image without attestations is validated, and the violation
  of the critical vulnerability makes \<open>Review\<close> fail.
\<close>

lemma unattested_image_is_validated:
  "Review exampleConfig exampleEnv [exampleImage] [exampleISP] [] =
     (Some (FoundViolations exampleImage
              [\<lparr>vulnerability = Some \<lparr>CVE = ''CVE-4'', Severity = ''CRITICAL'',
                                     HasFixAvailable = False\<rparr>,
                vType = FixUnavailableViolation,
                reason = FixUnavailableReason exampleImage
                           \<lparr>CVE = ''CVE-4'', Severity = ''CRITICAL'', HasFixAvailable = False\<rparr>
                           exampleISP\<rparr>]),
      [EvAuths ''ns'' ''auth'', EvAttestations exampleImage,
       EvHandleAttestation exampleImage False, EvValidate exampleISP exampleImage,
       EvHandleViolation exampleImage
         [\<lparr>vulnerability = Some \<lparr>CVE = ''CVE-4'', Severity = ''CRITICAL'',
                                  HasFixAvailable = False\<rparr>,
           vType = FixUnavailableViolation,
           reason = FixUnavailableReason exampleImage
                      \<lparr>CVE = ''CVE-4'', Severity = ''CRITICAL'', HasFixAvailable = False\<rparr>
                      exampleISP\<rparr>]],
      [])"
  by (simp add: Review_def getAttestationAuthoritiesForISP_def fetchAndVerifyAttestations_def
        hasValidImageAttestations_def handleViolations_def fingerprint_def mapGet_def
        example_review_defs example_defs evaluator_defs)

text \<open>
  Claim C2 as stated asks only that the signature of some fetched attestation verifies
  against the public key of a configured authority. \<open>hasValidImageAttestations\<close> finds
  the key of an attestation by its key id, in a map from the authorities' fingerprints to
  their keys. On the sample reviewer in webhook mode, the fetched attestation carries a
  signature that verifies against the key of the configured authority, but a key id that
  is not the fingerprint of that key: the lookup yields the empty key, the attestation
  does not verify, and \<open>Review\<close> calls \<open>Validate\<close> for the pair.
\<close>

theorem foreign_key_id_is_validated:
  "IsWebhook exampleConfig
   \<and> ClientAttestations exampleConfig [exampleForeignAttestation] exampleImage
       = ([exampleForeignAttestation], None)
   \<and> getAttestationAuthoritiesForISP exampleConfig exampleISP
       = (Inr [exampleAuthority], [EvAuths ''ns'' ''auth''])
   \<and> fingerprint exampleEnv (PublicKeyData exampleAuthority) = Inr (''K'', ''fp-K'')
   \<and> NewAtomicContainerSig exampleEnv exampleImage = Inr exampleImage
   \<and> VerifyAttestationSignature exampleEnv exampleImage ''K''
       (Signature exampleForeignAttestation) = None
   \<and> Review exampleConfig exampleEnv [exampleImage] [exampleISP] [exampleForeignAttestation] =
     (Some (FoundViolations exampleImage
              [\<lparr>vulnerability = Some \<lparr>CVE = ''CVE-4'', Severity = ''CRITICAL'',
                                     HasFixAvailable = False\<rparr>,
                vType = FixUnavailableViolation,
                reason = FixUnavailableReason exampleImage
                           \<lparr>CVE = ''CVE-4'', Severity = ''CRITICAL'', HasFixAvailable = False\<rparr>
                           exampleISP\<rparr>]),
      [EvAuths ''ns'' ''auth'', EvAttestations exampleImage,
       EvHandleAttestation exampleImage False, EvValidate exampleISP exampleImage,
       EvHandleViolation exampleImage
         [\<lparr>vulnerability = Some \<lparr>CVE = ''CVE-4'', Severity = ''CRITICAL'',
                                  HasFixAvailable = False\<rparr>,
           vType = FixUnavailableViolation,
           reason = FixUnavailableReason exampleImage
                      \<lparr>CVE = ''CVE-4'', Severity = ''CRITICAL'', HasFixAvailable = False\<rparr>
                      exampleISP\<rparr>]],
      [exampleForeignAttestation])"
  by (simp add: Review_def getAttestationAuthoritiesForISP_def fetchAndVerifyAttestations_def
        hasValidImageAttestations_def handleViolations_def fingerprint_def mapGet_def
        exampleForeignAttestation_def example_review_defs example_defs evaluator_defs)

text \<open>
  The map from fingerprints to keys keeps the key of the last authority with a given
  fingerprint. Where two authorities with different keys share a fingerprint, an
  attestation signed with the first key is accepted or not according to the order of the
  authorities; hence the condition below that the fingerprint names one key only.
\<close>

lemma later_authority_overwrites_key:
  "fingerprint exampleCollidingEnv (PublicKeyData exampleAuthorityOne) = Inr (''K1'', ''fp'')
   \<and> fingerprint exampleCollidingEnv (PublicKeyData exampleAuthorityTwo) = Inr (''K2'', ''fp'')
   \<and> VerifyAttestationSignature exampleCollidingEnv exampleImage ''K1'' (''K1'' @ exampleImage)
       = None
   \<and> hasValidImageAttestations exampleCollidingEnv exampleImage
        [\<lparr>KeyID = ''fp'', Signature = ''K1'' @ exampleImage, OccID = ''occ''\<rparr>]
        [exampleAuthorityTwo, exampleAuthorityOne] = True
   \<and> hasValidImageAttestations exampleCollidingEnv exampleImage
        [\<lparr>KeyID = ''fp'', Signature = ''K1'' @ exampleImage, OccID = ''occ''\<rparr>]
        [exampleAuthorityOne, exampleAuthorityTwo] = False"
  by (simp add: hasValidImageAttestations_def fingerprint_def mapGet_def
        example_colliding_defs example_review_defs example_defs)

lemma keysLoop_lookup:
  assumes uniq: "\<forall>auth' \<in> set auths. \<forall>key'.
                   fingerprint env (PublicKeyData auth') = Inr (key', fp) \<longrightarrow> key' = key"
    and src: "m fp = Some key
              \<or> (\<exists>auth \<in> set auths. fingerprint env (PublicKeyData auth) = Inr (key, fp))"
  shows "keysLoop env m auths fp = Some key"
  using uniq src
proof (induction auths arbitrary: m)
  case Nil
  then show ?case by simp
next
  case (Cons a auths)
  have uniq': "\<forall>auth' \<in> set auths. \<forall>key'.
                 fingerprint env (PublicKeyData auth') = Inr (key', fp) \<longrightarrow> key' = key"
    using Cons.prems(1) by simp
  show ?case
  proof (cases "fingerprint env (PublicKeyData a)")
    case (Inl err)
    then have "m fp = Some key
               \<or> (\<exists>auth \<in> set auths. fingerprint env (PublicKeyData auth) = Inr (key, fp))"
      using Cons.prems(2) by auto
    from Cons.IH [of m, OF uniq' this] show ?thesis using Inl by simp
  next
    case (Inr kf)
    obtain k f where kf: "kf = (k, f)" by (cases kf)
    have "keysLoop env (m(f \<mapsto> k)) auths fp = Some key"
    proof (rule Cons.IH [OF uniq'])
      show "(m(f \<mapsto> k)) fp = Some key
            \<or> (\<exists>auth \<in> set auths. fingerprint env (PublicKeyData auth) = Inr (key, fp))"
      proof (cases "f = fp")
        case True
        then have "k = key" using Cons.prems(1) Inr kf by simp
        then show ?thesis using True by simp
      next
        case False
        then show ?thesis using Cons.prems(2) Inr kf by auto
      qed
    qed
    then show ?thesis using Inr kf by simp
  qed
qed

lemma verifyLoop_found:
  assumes "a \<in> set atts"
    and "VerifyAttestationSignature env host (mapGet keys (KeyID a)) (Signature a) = None"
  shows "verifyLoop env host keys atts"
  using assms by (induction atts) auto

lemma hasValidImageAttestations_valid:
  assumes host: "NewAtomicContainerSig env img = Inr host"
    and a: "a \<in> set atts"
    and auth: "auth \<in> set auths"
    and fp: "fingerprint env (PublicKeyData auth) = Inr (key, KeyID a)"
    and uniq: "\<forall>auth' \<in> set auths. \<forall>key'.
                 fingerprint env (PublicKeyData auth') = Inr (key', KeyID a) \<longrightarrow> key' = key"
    and ver: "VerifyAttestationSignature env host key (Signature a) = None"
  shows "hasValidImageAttestations env img atts auths"
proof -
  have "keysLoop env Map.empty auths (KeyID a) = Some key"
    using keysLoop_lookup [where m = Map.empty, OF uniq] auth fp by blast
  then have "mapGet (keysLoop env Map.empty auths) (KeyID a) = key"
    by (simp add: mapGet_def)
  then have "verifyLoop env host (keysLoop env Map.empty auths) atts"
    using verifyLoop_found [OF a, of env host "keysLoop env Map.empty auths"] ver by simp
  then show ?thesis
    using host by (simp add: hasValidImageAttestations_def)
qed

text \<open>
  Claim C2, amended. In webhook mode, let the fetch of the attestations of an image
  succeed and let the list hold an attestation whose key id is the fingerprint of the
  public key of one of the policy's authorities and whose signature verifies against
  that key (the fingerprint naming one key only among the authorities). Then the
  iteration of the image loop for this policy and image makes two calls, the fetch and
  the report to the strategy, and goes on with the next image: \<open>Validate\<close> is not called
  for the pair. In particular \<open>Review\<close> of that single image against that single policy
  succeeds without a call of \<open>Validate\<close>.
\<close>

theorem valid_attestation_skips_validation:
  assumes wh: "IsWebhook cfg"
    and fetch: "ClientAttestations cfg w img = (atts, None)"
    and host: "NewAtomicContainerSig env img = Inr host"
    and a: "a \<in> set atts"
    and auth: "auth \<in> set auths"
    and fp: "fingerprint env (PublicKeyData auth) = Inr (key, KeyID a)"
    and uniq: "\<forall>auth' \<in> set auths. \<forall>key'.
                 fingerprint env (PublicKeyData auth') = Inr (key', KeyID a) \<longrightarrow> key' = key"
    and ver: "VerifyAttestationSignature env host key (Signature a) = None"
  shows "reviewImages cfg env isp auths (img # images) w =
           (case reviewImages cfg env isp auths images (snd (HandleAttestation cfg w img True)) of
              (r, evs, w') \<Rightarrow> (r, [EvAttestations img, EvHandleAttestation img True] @ evs, w'))
         \<and> (RemoveGloballyWhitelistedImages env [img] = [img] \<longrightarrow>
            ClusterWhitelistedImagesRemover cfg [img] = ([img], None) \<longrightarrow>
            getAttestationAuthoritiesForISP cfg isp = (Inr auths, evs0) \<longrightarrow>
            Review cfg env [img] [isp] w =
              (None, evs0 @ [EvAttestations img, EvHandleAttestation img True],
               snd (HandleAttestation cfg w img True)))"
proof -
  have valid: "hasValidImageAttestations env img atts auths"
    by (rule hasValidImageAttestations_valid [OF host a auth fp uniq ver])
  obtain herr w1 where h: "HandleAttestation cfg w img True = (herr, w1)"
    by (cases "HandleAttestation cfg w img True")
  have fv: "fetchAndVerifyAttestations cfg env img auths w =
              ((True, atts), [EvAttestations img, EvHandleAttestation img True], w1)"
    using fetch valid h by (simp add: fetchAndVerifyAttestations_def)
  have step: "reviewImages cfg env isp auths (img # images) w =
           (case reviewImages cfg env isp auths images w1 of
              (r, evs, w') \<Rightarrow> (r, [EvAttestations img, EvHandleAttestation img True] @ evs, w'))"
    for images
    using fv wh by simp
  show ?thesis
  proof (intro conjI impI)
    show "reviewImages cfg env isp auths (img # images) w =
           (case reviewImages cfg env isp auths images (snd (HandleAttestation cfg w img True)) of
              (r, evs, w') \<Rightarrow> (r, [EvAttestations img, EvHandleAttestation img True] @ evs, w'))"
      using step [of images] h by simp
    show "Review cfg env [img] [isp] w =
              (None, evs0 @ [EvAttestations img, EvHandleAttestation img True],
               snd (HandleAttestation cfg w img True))"
      if "RemoveGloballyWhitelistedImages env [img] = [img]"
        "ClusterWhitelistedImagesRemover cfg [img] = ([img], None)"
        "getAttestationAuthoritiesForISP cfg isp = (Inr auths, evs0)"
      using that step [of "[]"] h by (simp add: Review_def)
  qed
qed

theorem valid_attestation_skips_validation_witness:
  "IsWebhook exampleConfig
   \<and> ClientAttestations exampleConfig [exampleAttestation] exampleImage
       = ([exampleAttestation], None)
   \<and> NewAtomicContainerSig exampleEnv exampleImage = Inr exampleImage
   \<and> fingerprint exampleEnv (PublicKeyData exampleAuthority) = Inr (''K'', KeyID exampleAttestation)
   \<and> VerifyAttestationSignature exampleEnv exampleImage ''K'' (Signature exampleAttestation) = None
   \<and> getAttestationAuthoritiesForISP exampleConfig exampleISP
       = (Inr [exampleAuthority], [EvAuths ''ns'' ''auth''])
   \<and> Review exampleConfig exampleEnv [exampleImage] [exampleISP] [exampleAttestation] =
       (None,
        [EvAuths ''ns'' ''auth'', EvAttestations exampleImage,
         EvHandleAttestation exampleImage True],
        [exampleAttestation])"
proof -
  have wh: "IsWebhook exampleConfig"
    and fetch: "ClientAttestations exampleConfig [exampleAttestation] exampleImage
                  = ([exampleAttestation], None)"
    and host: "NewAtomicContainerSig exampleEnv exampleImage = Inr exampleImage"
    and a: "exampleAttestation \<in> set [exampleAttestation]"
    and auth: "exampleAuthority \<in> set [exampleAuthority]"
    and fp: "fingerprint exampleEnv (PublicKeyData exampleAuthority)
               = Inr (''K'', KeyID exampleAttestation)"
    and ver: "VerifyAttestationSignature exampleEnv exampleImage ''K''
                (Signature exampleAttestation) = None"
    and g: "RemoveGloballyWhitelistedImages exampleEnv [exampleImage] = [exampleImage]"
    and c: "ClusterWhitelistedImagesRemover exampleConfig [exampleImage] = ([exampleImage], None)"
    and au: "getAttestationAuthoritiesForISP exampleConfig exampleISP
               = (Inr [exampleAuthority], [EvAuths ''ns'' ''auth''])"
    and ha: "snd (HandleAttestation exampleConfig [exampleAttestation] exampleImage True)
               = [exampleAttestation]"
    by (simp_all add: example_review_defs example_defs fingerprint_def
          getAttestationAuthoritiesForISP_def)
  have uniq: "\<forall>auth' \<in> set [exampleAuthority]. \<forall>key'.
                fingerprint exampleEnv (PublicKeyData auth') = Inr (key', KeyID exampleAttestation)
                \<longrightarrow> key' = ''K''"
    by (simp add: example_review_defs example_defs fingerprint_def)
  note t = valid_attestation_skips_validation [OF wh fetch host a auth fp uniq ver,
             of exampleISP "[]" "[EvAuths ''ns'' ''auth'']"]
  show ?thesis
    using wh fetch host fp ver au t g c ha by simp
qed

end
